theory Spec2Isabelle
  imports Complex_Main "HOL-Library.AList"
begin

section \<open>Values, errors and the library environment\<close>

text \<open>
  The values stored in \<^verbatim>\<open>properties\<close> and \<^verbatim>\<open>metadata\<close> dictionaries: \<^verbatim>\<open>None\<close>,
  integers and strings. These are the values the rules and tests of the source ever store
  there (\<^verbatim>\<open>mass_change\<close>, \<^verbatim>\<open>energy_gain\<close>, group ids). Floating-point values are outside
  the model.
\<close>

datatype pyval = PNone | PInt int | PStr string

text \<open>The exceptions the modelled code can raise.\<close>

datatype error = ValueError string | TypeError

type_synonym pydict = "string \<rightharpoonup> pyval"

type_synonym ref = nat
type_synonym uuid = nat
type_synonym timestamp = nat

text \<open>Python truthiness of a value: \<^verbatim>\<open>None\<close>, \<^verbatim>\<open>0\<close> and \<^verbatim>\<open>""\<close> are falsy.\<close>

fun truthy :: "pyval \<Rightarrow> bool" where
  "truthy PNone = False"
| "truthy (PInt n) = (n \<noteq> 0)"
| "truthy (PStr s) = (s \<noteq> [])"

text \<open>
  The operator \<^verbatim>\<open>+\<close> on values: integer addition, string concatenation, and
  \<^verbatim>\<open>TypeError\<close> for every other pair of operands.
\<close>

fun py_add :: "pyval \<Rightarrow> pyval \<Rightarrow> error + pyval" where
  "py_add (PInt a) (PInt b) = Inr (PInt (a + b))"
| "py_add (PStr a) (PStr b) = Inr (PStr (a @ b))"
| "py_add _ _ = Inl TypeError"

text \<open>\<^verbatim>\<open>d.get(k, default)\<close> and \<^verbatim>\<open>d.get(k)\<close> (whose default is \<^verbatim>\<open>None\<close>).\<close>

definition dict_get :: "pydict \<Rightarrow> string \<Rightarrow> pyval \<Rightarrow> pyval" where
  "dict_get d k dflt = (case d k of None \<Rightarrow> dflt | Some v \<Rightarrow> v)"

text \<open>
  The library calls \<^verbatim>\<open>uuid.uuid4()\<close> and \<^verbatim>\<open>time.time()\<close> read the outside world. The
  environment holds what they are going to return, as two sequences and a position in
  each; a call returns the value at the position and advances it.
\<close>

record env =
  uuid_src :: "nat \<Rightarrow> uuid"
  uuid_pos :: nat
  clock_src :: "nat \<Rightarrow> timestamp"
  clock_pos :: nat

definition uuid4 :: "env \<Rightarrow> uuid \<times> env" where
  "uuid4 ev = (uuid_src ev (uuid_pos ev), ev\<lparr>uuid_pos := Suc (uuid_pos ev)\<rparr>)"

definition time_time :: "env \<Rightarrow> timestamp \<times> env" where
  "time_time ev = (clock_src ev (clock_pos ev), ev\<lparr>clock_pos := Suc (clock_pos ev)\<rparr>)"

section \<open>Data model\<close>

text \<open>
  An \<^verbatim>\<open>Interaction\<close> object. Participants are references to entities (positions in the
  store below), as in the source, where the list holds the entity objects themselves.
\<close>

record interaction =
  id_i :: uuid
  timestamp :: timestamp
  participants :: "ref list"
  interaction_type :: string
  metadata :: pydict

text \<open>
  \<^verbatim>\<open>Interaction.__init__\<close>: the length check comes first, so a failing construction
  draws no identifier and reads no clock.
\<close>

definition Interaction_init ::
  "ref list \<Rightarrow> string \<Rightarrow> pydict option \<Rightarrow> env \<Rightarrow> error + (interaction \<times> env)" where
  "Interaction_init ps ty md ev =
     (if length ps < 2 then Inl (ValueError ''Interaction requires at least two participants.'')
      else (let (i, ev1) = uuid4 ev;
                (t, ev2) = time_time ev1
            in Inr (\<lparr>id_i = i, timestamp = t, participants = ps, interaction_type = ty,
                      metadata = (case md of None \<Rightarrow> Map.empty | Some m \<Rightarrow> m)\<rparr>, ev2)))"

text \<open>
  The perceived-reality graph, a \<^verbatim>\<open>networkx.MultiDiGraph\<close>. Nodes are keyed by an
  entity id and carry an attribute dictionary with the keys \<^verbatim>\<open>properties\<close>, \<^verbatim>\<open>scale\<close> and
  \<^verbatim>\<open>local_time\<close>, each of which may be missing. Edges are keyed by source, target and
  edge key and carry \<^verbatim>\<open>type\<close>, \<^verbatim>\<open>timestamp\<close> and \<^verbatim>\<open>metadata\<close>. Both are kept in insertion
  order.
\<close>

record node_attrs =
  n_properties :: "pydict option"
  n_scale :: "real option"
  n_local_time :: "int option"

record edge_attrs =
  e_type :: string
  e_timestamp :: timestamp
  e_metadata :: pydict

record graph =
  nodes :: "(uuid \<times> node_attrs) list"
  edges :: "((uuid \<times> uuid \<times> uuid) \<times> edge_attrs) list"

definition empty_graph :: graph where
  "empty_graph = \<lparr>nodes = [], edges = []\<rparr>"

definition has_node :: "graph \<Rightarrow> uuid \<Rightarrow> bool" where
  "has_node g n = (n \<in> fst ` set (nodes g))"

definition number_of_nodes :: "graph \<Rightarrow> nat" where
  "number_of_nodes g = length (nodes g)"

definition number_of_edges :: "graph \<Rightarrow> nat" where
  "number_of_edges g = length (edges g)"

text \<open>
  \<^verbatim>\<open>add_node(n, **attr)\<close> on a node that is not in the graph stores the attributes;
  the source calls it on absent nodes only.
\<close>

definition add_node :: "graph \<Rightarrow> uuid \<Rightarrow> node_attrs \<Rightarrow> graph" where
  "add_node g n a = (if has_node g n then g else g\<lparr>nodes := nodes g @ [(n, a)]\<rparr>)"

text \<open>
  \<^verbatim>\<open>add_edge(u, v, key=k, **attr)\<close>: both end points become nodes (with no attributes)
  when they are not nodes yet; an edge with the same end points and key is updated in
  place, a new one is added.
\<close>

definition no_attrs :: node_attrs where
  "no_attrs = \<lparr>n_properties = None, n_scale = None, n_local_time = None\<rparr>"

definition add_edge :: "graph \<Rightarrow> uuid \<Rightarrow> uuid \<Rightarrow> uuid \<Rightarrow> edge_attrs \<Rightarrow> graph" where
  "add_edge g u v k d =
     (let g1 = add_node g u no_attrs;
          g2 = add_node g1 v no_attrs
      in g2\<lparr>edges := AList.update (u, v, k) d (edges g2)\<rparr>)"

text \<open>
  An \<^verbatim>\<open>Entity\<close> object; an \<^verbatim>\<open>Observer\<close> is an entity that has a \<^verbatim>\<open>reality_model\<close>. The
  scale is the real number that the entity's double denotes; the engine stores and copies
  it and computes nothing from it.
\<close>

record entity =
  id_e :: uuid
  interaction_history :: "interaction list"
  local_time :: int
  scale :: real
  properties :: pydict
  reality_model :: "graph option"

text \<open>The store: every reference denotes an entity object.\<close>

type_synonym heap = "ref \<Rightarrow> entity"

definition is_Observer :: "entity \<Rightarrow> bool" where
  "is_Observer e = (reality_model e \<noteq> None)"

section \<open>Floating-point arithmetic and the scale distance\<close>

text \<open>
  Python's \<^verbatim>\<open>float\<close> is the IEEE 754 binary64 format. A value is a finite double, an
  infinity or a NaN; a finite double is given by the real number it denotes (the two
  zeros denote the same number and compare equal). The finite doubles are the reals that
  \<open>round64\<close> leaves as they are.
\<close>

datatype fp = Fin real | PInf | NInf | NaN

text \<open>
  The binary exponent of a positive real, found by halving or doubling it into the
  interval from 1 to 2. The bound on the steps is never reached by a number whose
  exponent lies between -1100 and 1100; beyond those the result is clipped or the
  rounding overflows anyway.
\<close>

fun binade :: "nat \<Rightarrow> real \<Rightarrow> int" where
  "binade 0 x = 0"
| "binade (Suc n) x =
     (if x < 1 then binade n (2 * x) - 1 else if 2 \<le> x then binade n (x / 2) + 1 else 0)"

text \<open>Rounding to the nearest integer, a tie going to the even one.\<close>

definition round_half_even :: "real \<Rightarrow> int" where
  "round_half_even y =
     (let f = \<lfloor>y\<rfloor>; d = y - of_int f
      in if d < 1 / 2 then f else if 1 / 2 < d then f + 1 else if even f then f else f + 1)"

text \<open>
  Rounding a real to binary64, to nearest and ties to even: 53 significant bits, the
  exponent no less than -1022 (below it the spacing stays that of the subnormal
  numbers), and an infinity when the rounded value reaches \<open>2 ^ 1024\<close>. This is also how
  a decimal literal such as \<^verbatim>\<open>0.1\<close> becomes a double.
\<close>

definition round64 :: "real \<Rightarrow> fp" where
  "round64 x =
     (let e = max (- 1022) (binade 1100 \<bar>x\<bar>);
          q = 2 powi (e - 52);
          r = of_int (round_half_even (x / q)) * q
      in if 2 powi 1024 \<le> r then PInf else if r \<le> - (2 powi 1024) then NInf else Fin r)"

text \<open>Subtraction, negation, \<^verbatim>\<open>abs\<close>, \<^verbatim>\<open><\<close> and the built-in \<^verbatim>\<open>min\<close> of two arguments.\<close>

fun fp_sub :: "fp \<Rightarrow> fp \<Rightarrow> fp" where
  "fp_sub (Fin a) (Fin b) = round64 (a - b)"
| "fp_sub NaN _ = NaN"
| "fp_sub _ NaN = NaN"
| "fp_sub PInf PInf = NaN"
| "fp_sub NInf NInf = NaN"
| "fp_sub PInf _ = PInf"
| "fp_sub NInf _ = NInf"
| "fp_sub (Fin a) PInf = NInf"
| "fp_sub (Fin a) NInf = PInf"

fun fp_neg :: "fp \<Rightarrow> fp" where
  "fp_neg (Fin a) = Fin (- a)"
| "fp_neg PInf = NInf"
| "fp_neg NInf = PInf"
| "fp_neg NaN = NaN"

fun fp_abs :: "fp \<Rightarrow> fp" where
  "fp_abs (Fin a) = Fin \<bar>a\<bar>"
| "fp_abs PInf = PInf"
| "fp_abs NInf = PInf"
| "fp_abs NaN = NaN"

fun fp_less :: "fp \<Rightarrow> fp \<Rightarrow> bool" where
  "fp_less NaN _ = False"
| "fp_less _ NaN = False"
| "fp_less (Fin a) (Fin b) = (a < b)"
| "fp_less NInf NInf = False"
| "fp_less NInf _ = True"
| "fp_less _ NInf = False"
| "fp_less PInf _ = False"
| "fp_less (Fin a) PInf = True"

text \<open>\<^verbatim>\<open>min(a, b)\<close> returns \<open>b\<close> when \<open>b < a\<close> and \<open>a\<close> otherwise.\<close>

definition py_min :: "fp \<Rightarrow> fp \<Rightarrow> fp" where
  "py_min a b = (if fp_less b a then b else a)"

text \<open>\<^verbatim>\<open>scale_distance(scale1, scale2)\<close>; the integer \<^verbatim>\<open>1\<close> becomes the double 1.0.\<close>

definition scale_distance :: "fp \<Rightarrow> fp \<Rightarrow> fp" where
  "scale_distance scale1 scale2 =
     (let dist = fp_abs (fp_sub scale1 scale2) in py_min dist (fp_sub (Fin 1) dist))"

section \<open>Interaction: recording and effects\<close>

text \<open>\<^verbatim>\<open>Interaction.record_interaction(entity)\<close>.\<close>

definition record_interaction :: "interaction \<Rightarrow> ref \<Rightarrow> heap \<Rightarrow> heap" where
  "record_interaction i e h =
     h(e := (h e)\<lparr>interaction_history := interaction_history (h e) @ [i],
                  local_time := local_time (h e) + 1\<rparr>)"

text \<open>
  \<^verbatim>\<open>Interaction.apply_effects(entity)\<close>. The addition raises \<^verbatim>\<open>TypeError\<close> when the
  operands do not add; the assignment is not reached then.
\<close>

definition apply_effects :: "interaction \<Rightarrow> ref \<Rightarrow> heap \<Rightarrow> error + heap" where
  "apply_effects i e h =
     (if interaction_type i = ''gravity'' then
        (let current_mass = dict_get (properties (h e)) ''mass'' (PInt 0) in
         case py_add current_mass (dict_get (metadata i) ''mass_change'' (PInt 1)) of
           Inl err \<Rightarrow> Inl err
         | Inr v \<Rightarrow> Inr (h(e := (h e)\<lparr>properties := (properties (h e))(''mass'' \<mapsto> v)\<rparr>)))
      else if interaction_type i = ''fusion'' then
        (let current_energy = dict_get (properties (h e)) ''energy'' (PInt 0) in
         case py_add current_energy (dict_get (metadata i) ''energy_gain'' (PInt 10)) of
           Inl err \<Rightarrow> Inl err
         | Inr v \<Rightarrow> Inr (h(e := (h e)\<lparr>properties := (properties (h e))(''energy'' \<mapsto> v)\<rparr>)))
      else if interaction_type i = ''group_formed'' then
        Inr (h(e := (h e)\<lparr>properties :=
               (properties (h e))(''group_id'' \<mapsto> dict_get (metadata i) ''group_id'' PNone)\<rparr>))
      else Inr h)"

section \<open>Observer: perception and pattern mining\<close>

text \<open>
  The assignments \<^verbatim>\<open>nodes[n]["properties"] = p\<close> and \<^verbatim>\<open>nodes[n]["local_time"] = t\<close> on a
  node that exists.
\<close>

definition refresh_node :: "graph \<Rightarrow> uuid \<Rightarrow> pydict \<Rightarrow> int \<Rightarrow> graph" where
  "refresh_node g n p t =
     g\<lparr>nodes := map (\<lambda>(k, a). if k = n then (k, a\<lparr>n_properties := Some p, n_local_time := Some t\<rparr>)
                                 else (k, a)) (nodes g)\<rparr>"

text \<open>The body of the loop over the participants in \<^verbatim>\<open>perceive_signal\<close>.\<close>

definition upsert_node :: "heap \<Rightarrow> graph \<Rightarrow> ref \<Rightarrow> graph" where
  "upsert_node h g e =
     (if \<not> has_node g (id_e (h e)) then
        add_node g (id_e (h e))
          \<lparr>n_properties = Some (properties (h e)), n_scale = Some (scale (h e)),
           n_local_time = Some (local_time (h e))\<rparr>
      else refresh_node g (id_e (h e)) (properties (h e)) (local_time (h e)))"

text \<open>
  \<^verbatim>\<open>Observer.perceive_signal(interaction)\<close>. The method writes nothing but the
  observer's own \<^verbatim>\<open>reality_model\<close>, so it is a function from that graph to its new value;
  \<open>self\<close> is the observer's reference and \<open>h\<close> the store the participants are read from.
\<close>

definition perceive_signal :: "heap \<Rightarrow> ref \<Rightarrow> interaction \<Rightarrow> graph \<Rightarrow> graph" where
  "perceive_signal h self i g =
     (if self \<notin> set (participants i) then g
      else
        (let g1 = foldl (upsert_node h) g (participants i) in
         if length (participants i) = 2 then
           (let e1 = participants i ! 0;
                e2 = participants i ! 1;
                d = \<lparr>e_type = interaction_type i, e_timestamp = timestamp i,
                     e_metadata = metadata i\<rparr>;
                g2 = add_edge g1 (id_e (h e1)) (id_e (h e2)) (id_i i) d
            in add_edge g2 (id_e (h e2)) (id_e (h e1)) (id_i i) d)
         else g1))"

text \<open>A \<^verbatim>\<open>Counter\<close>, in insertion order; \<^verbatim>\<open>c[k] += 1\<close> starts a missing key at 0.\<close>

definition counter_add :: "('k \<times> nat) list \<Rightarrow> 'k \<Rightarrow> ('k \<times> nat) list" where
  "counter_add c k = AList.update k (case map_of c k of None \<Rightarrow> 1 | Some n \<Rightarrow> n + 1) c"

text \<open>
  \<^verbatim>\<open>Observer.find_patterns()\<close>: the entries \<^verbatim>\<open>num_perceived_entities\<close>,
  \<^verbatim>\<open>num_perceived_relationships\<close> and \<^verbatim>\<open>perceived_groups\<close> of the returned dictionary.
  The other three entries (frequent interaction types, degree centrality, weakly connected
  components) are computed by library routines from the same graph and do not enter
  these three.
\<close>

record patterns =
  num_perceived_entities :: nat
  num_perceived_relationships :: nat
  perceived_groups :: "(pyval \<times> nat) list"

definition count_group :: "graph \<Rightarrow> (pyval \<times> nat) list \<Rightarrow> uuid \<Rightarrow> (pyval \<times> nat) list" where
  "count_group g c node_id =
     (case map_of (nodes g) node_id of
        None \<Rightarrow> c
      | Some a \<Rightarrow>
          (let node_properties = (case n_properties a of None \<Rightarrow> Map.empty | Some p \<Rightarrow> p) in
           case node_properties ''group_id'' of
             None \<Rightarrow> c
           | Some gid \<Rightarrow> counter_add c gid))"

definition find_patterns :: "graph \<Rightarrow> patterns" where
  "find_patterns g =
     \<lparr>num_perceived_entities = number_of_nodes g,
      num_perceived_relationships = number_of_edges g,
      perceived_groups =
        filter (\<lambda>(group_id, count). count > 1) (foldl (count_group g) [] (map fst (nodes g)))\<rparr>"

section \<open>Universe\<close>

text \<open>
  A rule is called with the entity list; through it the rule can read every entity, so
  the model hands it the store as well. A rule may keep state of its own between calls
  and may draw random numbers, identifiers and the time: \<open>'x\<close> is that state, passed in
  and returned. A rule may raise. As the rules of the source do, a rule only reads the
  entities.
\<close>

type_synonym 'x rule = "ref list \<Rightarrow> heap \<Rightarrow> 'x \<Rightarrow> error + (interaction list option \<times> 'x)"

record 'x universe =
  entities :: "ref list"
  interaction_rules :: "'x rule list"
  interaction_history_u :: "interaction list"

definition Universe_init :: "'x universe" where
  "Universe_init = \<lparr>entities = [], interaction_rules = [], interaction_history_u = []\<rparr>"

definition add_entity :: "'x universe \<Rightarrow> ref \<Rightarrow> 'x universe" where
  "add_entity u e = u\<lparr>entities := entities u @ [e]\<rparr>"

definition add_interaction_rule :: "'x universe \<Rightarrow> 'x rule \<Rightarrow> 'x universe" where
  "add_interaction_rule u r = u\<lparr>interaction_rules := interaction_rules u @ [r]\<rparr>"

text \<open>
  The first loop of \<^verbatim>\<open>tick\<close>: \<open>new_interactions\<close> is the accumulator; a rule's result is
  appended when it is truthy, that is neither \<^verbatim>\<open>None\<close> nor empty.
\<close>

fun run_rules ::
  "'x rule list \<Rightarrow> ref list \<Rightarrow> heap \<Rightarrow> interaction list \<Rightarrow> 'x \<Rightarrow> error + (interaction list \<times> 'x)" where
  "run_rules [] ents h new_interactions x = Inr (new_interactions, x)"
| "run_rules (rule # rules) ents h new_interactions x =
     (case rule ents h x of
        Inl err \<Rightarrow> Inl err
      | Inr (interactions, x') \<Rightarrow>
          run_rules rules ents h
            (case interactions of
               None \<Rightarrow> new_interactions
             | Some xs \<Rightarrow> if xs \<noteq> [] then new_interactions @ xs else new_interactions) x')"

text \<open>The body of the inner loop of \<^verbatim>\<open>tick\<close>: record, apply the effects, perceive.\<close>

definition process_participant :: "interaction \<Rightarrow> ref \<Rightarrow> heap \<Rightarrow> error + heap" where
  "process_participant i e h =
     (let h1 = record_interaction i e h in
      case apply_effects i e h1 of
        Inl err \<Rightarrow> Inl err
      | Inr h2 \<Rightarrow>
          Inr (case reality_model (h2 e) of
                 None \<Rightarrow> h2
               | Some g \<Rightarrow> h2(e := (h2 e)\<lparr>reality_model := Some (perceive_signal h2 e i g)\<rparr>)))"

fun process_participants :: "interaction \<Rightarrow> ref list \<Rightarrow> heap \<Rightarrow> error + heap" where
  "process_participants i [] h = Inr h"
| "process_participants i (e # es) h =
     (case process_participant i e h of
        Inl err \<Rightarrow> Inl err
      | Inr h' \<Rightarrow> process_participants i es h')"

fun process_interactions :: "interaction list \<Rightarrow> heap \<Rightarrow> error + heap" where
  "process_interactions [] h = Inr h"
| "process_interactions (i # is) h =
     (case process_participants i (participants i) h of
        Inl err \<Rightarrow> Inl err
      | Inr h' \<Rightarrow> process_interactions is h')"

text \<open>\<^verbatim>\<open>Universe.tick()\<close>.\<close>

definition tick ::
  "'x universe \<Rightarrow> heap \<Rightarrow> 'x \<Rightarrow> error + (interaction list \<times> 'x universe \<times> heap \<times> 'x)" where
  "tick u h x =
     (case run_rules (interaction_rules u) (entities u) h [] x of
        Inl err \<Rightarrow> Inl err
      | Inr (new_interactions, x') \<Rightarrow>
          (let u' = u\<lparr>interaction_history_u := interaction_history_u u @ new_interactions\<rparr> in
           case process_interactions new_interactions h of
             Inl err \<Rightarrow> Inl err
           | Inr h' \<Rightarrow> Inr (new_interactions, u', h', x')))"

section \<open>Group formation rule\<close>

text \<open>
  The first loop of \<^verbatim>\<open>group_formation_rule\<close>: a \<^verbatim>\<open>Counter\<close> keyed by the frozenset of the
  two participants' ids. The body runs for every entry of the history of every entity of
  the roster.
\<close>

definition count_history_entry ::
  "heap \<Rightarrow> (uuid set \<times> nat) list \<Rightarrow> interaction \<Rightarrow> (uuid set \<times> nat) list" where
  "count_history_entry h interaction_counts i =
     (if length (participants i) = 2 then
        (case sort_key (\<lambda>e. id_e (h e)) (participants i) of
           [p1, p2] \<Rightarrow> counter_add interaction_counts {id_e (h p1), id_e (h p2)}
         | _ \<Rightarrow> interaction_counts)
      else interaction_counts)"

definition interaction_counts_of :: "heap \<Rightarrow> ref list \<Rightarrow> (uuid set \<times> nat) list" where
  "interaction_counts_of h ents =
     foldl (\<lambda>c e. foldl (count_history_entry h) c (interaction_history (h e))) [] ents"

text \<open>\<^verbatim>\<open>next((e for e in entities if e.id == u), None)\<close>.\<close>

definition next_entity :: "heap \<Rightarrow> ref list \<Rightarrow> uuid \<Rightarrow> ref option" where
  "next_entity h ents u = find (\<lambda>e. id_e (h e) = u) ents"

text \<open>
  The body of the second loop, for one item of the counter. Two things come from the
  library and are parameters: \<open>fl\<close>, the order in which \<^verbatim>\<open>list(pair_ids)\<close> lists a
  frozenset, and \<open>us\<close>, the string of a UUID. Unpacking a list that has not exactly two
  elements raises \<^verbatim>\<open>ValueError\<close>.
\<close>

definition group_for_pair ::
  "(uuid set \<Rightarrow> uuid list) \<Rightarrow> (uuid \<Rightarrow> string) \<Rightarrow> int \<Rightarrow> ref list \<Rightarrow> heap
     \<Rightarrow> uuid set \<times> nat \<Rightarrow> env \<Rightarrow> error + (interaction option \<times> env)" where
  "group_for_pair fl us interaction_threshold ents h item ev =
     (case item of (pair_ids, count) \<Rightarrow>
        if int count \<ge> interaction_threshold then
          (case fl pair_ids of
             [e1_id, e2_id] \<Rightarrow>
               (case (next_entity h ents e1_id, next_entity h ents e2_id) of
                  (Some e1, Some e2) \<Rightarrow>
                    (let group_id_e1 = dict_get (properties (h e1)) ''group_id'' PNone;
                         group_id_e2 = dict_get (properties (h e2)) ''group_id'' PNone
                     in if group_id_e1 = PNone \<and> group_id_e2 = PNone then
                          (let (u, ev1) = uuid4 ev in
                           case Interaction_init [e1, e2] ''group_formed''
                                  (Some [''group_id'' \<mapsto> PStr (us u)]) ev1 of
                             Inl err \<Rightarrow> Inl err
                           | Inr (i, ev2) \<Rightarrow> Inr (Some i, ev2))
                        else if group_id_e1 \<noteq> group_id_e2 then
                          (let (new_group_id, ev1) =
                                 (if truthy group_id_e1 then (group_id_e1, ev)
                                  else if truthy group_id_e2 then (group_id_e2, ev)
                                  else (let (u, ev') = uuid4 ev in (PStr (us u), ev')))
                           in case Interaction_init [e1, e2] ''group_formed''
                                     (Some [''group_id'' \<mapsto> new_group_id]) ev1 of
                                Inl err \<Rightarrow> Inl err
                              | Inr (i, ev2) \<Rightarrow> Inr (Some i, ev2))
                        else Inr (None, ev))
                | _ \<Rightarrow> Inr (None, ev))
           | xs \<Rightarrow>
               Inl (ValueError (if length xs < 2 then ''not enough values to unpack''
                                else ''too many values to unpack'')))
        else Inr (None, ev))"

fun form_groups ::
  "(uuid set \<Rightarrow> uuid list) \<Rightarrow> (uuid \<Rightarrow> string) \<Rightarrow> int \<Rightarrow> ref list \<Rightarrow> heap
     \<Rightarrow> (uuid set \<times> nat) list \<Rightarrow> interaction list \<Rightarrow> env
     \<Rightarrow> error + (interaction list \<times> env)" where
  "form_groups fl us thr ents h [] new_interactions ev = Inr (new_interactions, ev)"
| "form_groups fl us thr ents h (item # items) new_interactions ev =
     (case group_for_pair fl us thr ents h item ev of
        Inl err \<Rightarrow> Inl err
      | Inr (None, ev') \<Rightarrow> form_groups fl us thr ents h items new_interactions ev'
      | Inr (Some i, ev') \<Rightarrow> form_groups fl us thr ents h items (new_interactions @ [i]) ev')"

text \<open>
  \<^verbatim>\<open>group_formation_rule(entities, interaction_threshold)\<close>; the threshold is 2 when the
  engine calls the rule. It always returns a list.
\<close>

definition group_formation_rule ::
  "(uuid set \<Rightarrow> uuid list) \<Rightarrow> (uuid \<Rightarrow> string) \<Rightarrow> int \<Rightarrow> env rule" where
  "group_formation_rule fl us interaction_threshold ents h ev =
     (case form_groups fl us interaction_threshold ents h (interaction_counts_of h ents) [] ev of
        Inl err \<Rightarrow> Inl err
      | Inr (new_interactions, ev') \<Rightarrow> Inr (Some new_interactions, ev'))"

section \<open>Notions used to state the properties\<close>

text \<open>
  The observer perceiving a sequence of interactions, one after the other, each in the
  store of its moment.
\<close>

definition perceive_each :: "ref \<Rightarrow> (heap \<times> interaction) list \<Rightarrow> graph \<Rightarrow> graph" where
  "perceive_each self evs g = foldl (\<lambda>g (h, i). perceive_signal h self i g) g evs"

text \<open>What the refresh of an existing node stores for participant \<open>p\<close>.\<close>

definition refreshed :: "heap \<Rightarrow> ref \<Rightarrow> node_attrs \<Rightarrow> node_attrs" where
  "refreshed h p a = a\<lparr>n_properties := Some (properties (h p)),
                        n_local_time := Some (local_time (h p))\<rparr>"

text \<open>
  The integer stored under a key of a dictionary: the default when the key is absent,
  nothing when the value is not an integer.
\<close>

definition int_at :: "pydict \<Rightarrow> string \<Rightarrow> int \<Rightarrow> int option" where
  "int_at d k dflt = (case d k of None \<Rightarrow> Some dflt | Some (PInt n) \<Rightarrow> Some n | Some _ \<Rightarrow> None)"

text \<open>
  The specification of \<^verbatim>\<open>tick\<close>, in its words. Each rule is called once, in registration
  order, with the entity list and the store as they are when the tick begins; only the
  rule state passes from one rule to the next.
\<close>

fun rule_outputs ::
  "'x rule list \<Rightarrow> ref list \<Rightarrow> heap \<Rightarrow> 'x \<Rightarrow> error + (interaction list option list \<times> 'x)" where
  "rule_outputs [] ents h x = Inr ([], x)"
| "rule_outputs (rule # rules) ents h x =
     (case rule ents h x of
        Inl err \<Rightarrow> Inl err
      | Inr (out, x') \<Rightarrow>
          (case rule_outputs rules ents h x' of
             Inl err \<Rightarrow> Inl err
           | Inr (outs, x'') \<Rightarrow> Inr (out # outs, x'')))"

text \<open>What a rule's output contributes: nothing for a null value or an empty sequence.\<close>

definition contribution :: "interaction list option \<Rightarrow> interaction list" where
  "contribution out = (case out of None \<Rightarrow> [] | Some xs \<Rightarrow> xs)"

text \<open>
  The interactions a tick records for entity \<open>r\<close>: each returned interaction, once for
  every occurrence of \<open>r\<close> among its participants.
\<close>

definition recorded_for :: "ref \<Rightarrow> interaction list \<Rightarrow> interaction list" where
  "recorded_for r is = concat (map (\<lambda>i. map (\<lambda>p. i) (filter (\<lambda>p. p = r) (participants i))) is)"

text \<open>
  A binary interaction between the observer and one other entity, whose id is not the
  observer's.
\<close>

definition meets :: "heap \<Rightarrow> ref \<Rightarrow> interaction \<Rightarrow> bool" where
  "meets h self i \<longleftrightarrow>
     (\<exists>x. (participants i = [self, x] \<or> participants i = [x, self]) \<and> id_e (h x) \<noteq> id_e (h self))"

text \<open>The ids of the entities other than the observer that take part in the interactions.\<close>

definition other_ids :: "heap \<Rightarrow> ref \<Rightarrow> interaction list \<Rightarrow> uuid set" where
  "other_ids h self is =
     (\<lambda>p. id_e (h p)) ` (\<Union>i \<in> set is. set (participants i)) - {id_e (h self)}"

text \<open>
  The group id a node of the model stores, and the perceived member count of a group:
  the number of nodes that store its id.
\<close>

definition node_group :: "graph \<Rightarrow> uuid \<Rightarrow> pyval option" where
  "node_group g n =
     (case map_of (nodes g) n of
        None \<Rightarrow> None
      | Some a \<Rightarrow> (case n_properties a of None \<Rightarrow> None | Some p \<Rightarrow> p ''group_id''))"

definition perceived_members :: "graph \<Rightarrow> pyval \<Rightarrow> nat" where
  "perceived_members g gid = card {n. has_node g n \<and> node_group g n = Some gid}"

text \<open>
  What the perception of participant \<open>p\<close> leaves in its node: a copy of the properties,
  the scale and the local time when the node is new, and otherwise the node's attributes
  with the properties and the local time replaced.
\<close>

definition first_seen :: "heap \<Rightarrow> ref \<Rightarrow> node_attrs" where
  "first_seen h p = \<lparr>n_properties = Some (properties (h p)), n_scale = Some (scale (h p)),
                      n_local_time = Some (local_time (h p))\<rparr>"

definition upserted :: "heap \<Rightarrow> ref \<Rightarrow> node_attrs option \<Rightarrow> node_attrs" where
  "upserted h p old = (case old of None \<Rightarrow> first_seen h p | Some a \<Rightarrow> refreshed h p a)"

section \<open>Example data\<close>

text \<open>
  A store in which reference 0 is an observer and every other reference a plain entity,
  all freshly constructed; the entity at reference \<open>r\<close> has id \<open>100 + r\<close>.
\<close>

definition example_entity :: "uuid \<Rightarrow> entity" where
  "example_entity u = \<lparr>id_e = u, interaction_history = [], local_time = 0, scale = 1 / 2,
                        properties = Map.empty, reality_model = None\<rparr>"

definition example_heap :: heap where
  "example_heap = (\<lambda>r. example_entity (100 + r))
                    (0 := (example_entity 100)\<lparr>reality_model := Some empty_graph\<rparr>)"

text \<open>The same store after entity 1 has gained mass, time and another scale.\<close>

definition example_heap2 :: heap where
  "example_heap2 = example_heap
     (1 := (example_heap 1)\<lparr>local_time := 4, scale := 9 / 10,
                             properties := [''mass'' \<mapsto> PInt 3]\<rparr>)"

definition example_interaction :: "uuid \<Rightarrow> ref list \<Rightarrow> string \<Rightarrow> pydict \<Rightarrow> interaction" where
  "example_interaction k ps ty md =
     \<lparr>id_i = k, timestamp = 0, participants = ps, interaction_type = ty, metadata = md\<rparr>"

text \<open>
  A rule that emits one interaction, numbered by a counter that it keeps as its state.
\<close>

definition example_rule :: "string \<Rightarrow> ref list \<Rightarrow> pydict \<Rightarrow> nat rule" where
  "example_rule ty ps md ents h x = Inr (Some [example_interaction x ps ty md], Suc x)"

definition example_universe :: "nat universe" where
  "example_universe =
     \<lparr>entities = [0, 1, 2],
      interaction_rules =
        [example_rule ''gravity'' [0, 1] [''mass_change'' \<mapsto> PInt 2],
         (\<lambda>ents h x. Inr (None, x)),
         (\<lambda>ents h x. Inr (Some [], x)),
         example_rule ''greeting'' [1, 0] Map.empty],
      interaction_history_u = []\<rparr>"

definition example_universe1 :: "nat universe" where
  "example_universe1 =
     \<lparr>entities = [0, 1, 2],
      interaction_rules = [example_rule ''gravity'' [0, 1] [''mass_change'' \<mapsto> PInt 2]],
      interaction_history_u = []\<rparr>"

text \<open>
  The store of the pattern test of the repository: entities 1 and 2 are in group1,
  entities 3 and 4 in group2. The observer meets the listed entities in turn; the
  interactions are numbered from 50.
\<close>

definition example_heap_groups :: heap where
  "example_heap_groups = example_heap
     (1 := (example_heap 1)\<lparr>properties := [''group_id'' \<mapsto> PStr ''group1'']\<rparr>,
      2 := (example_heap 2)\<lparr>properties := [''group_id'' \<mapsto> PStr ''group1'']\<rparr>,
      3 := (example_heap 3)\<lparr>properties := [''group_id'' \<mapsto> PStr ''group2'']\<rparr>,
      4 := (example_heap 4)\<lparr>properties := [''group_id'' \<mapsto> PStr ''group2'']\<rparr>)"

definition example_meetings :: "ref list \<Rightarrow> interaction list" where
  "example_meetings xs =
     map (\<lambda>(k, x). example_interaction (50 + k) [0, x] (if even k then ''type_A'' else ''type_B'')
                      Map.empty)
         (enumerate 0 xs)"

text \<open>One interaction between entities 1 and 2.\<close>

definition example_bond :: interaction where
  "example_bond = example_interaction 50 [1, 2] ''guaranteed_bond'' Map.empty"

section \<open>Auxiliary facts\<close>

lemma has_node_add_node: "has_node (add_node g n a) m = (m = n \<or> has_node g m)"
  by (auto simp: add_node_def has_node_def)

lemma edges_add_node: "edges (add_node g n a) = edges g"
  by (simp add: add_node_def)

lemma has_node_refresh_node: "has_node (refresh_node g n p t) m = has_node g m"
  by (force simp: refresh_node_def has_node_def split: if_splits)

lemma edges_refresh_node: "edges (refresh_node g n p t) = edges g"
  by (simp add: refresh_node_def)

lemma has_node_upsert_node: "has_node (upsert_node h g e) m = (m = id_e (h e) \<or> has_node g m)"
  by (auto simp: upsert_node_def has_node_add_node has_node_refresh_node)

lemma edges_upsert_node: "edges (upsert_node h g e) = edges g"
  by (simp add: upsert_node_def edges_add_node edges_refresh_node)

lemma has_node_upsert_fold:
  "has_node (foldl (upsert_node h) g ps) m = (m \<in> (\<lambda>p. id_e (h p)) ` set ps \<or> has_node g m)"
  by (induction ps arbitrary: g) (auto simp: has_node_upsert_node)

lemma edges_upsert_fold: "edges (foldl (upsert_node h) g ps) = edges g"
  by (induction ps arbitrary: g) (auto simp: edges_upsert_node)

lemma has_node_edges_update: "has_node (g\<lparr>edges := es\<rparr>) m = has_node g m"
  by (simp add: has_node_def)

lemma has_node_add_edge: "has_node (add_edge g u v k d) m = (m = u \<or> m = v \<or> has_node g m)"
  by (auto simp: add_edge_def Let_def has_node_add_node has_node_edges_update)

lemma edges_add_edge: "edges (add_edge g u v k d) = AList.update (u, v, k) d (edges g)"
  by (simp add: add_edge_def Let_def edges_add_node)

lemma nodes_add_edge_present:
  "has_node g u \<Longrightarrow> has_node g v \<Longrightarrow> nodes (add_edge g u v k d) = nodes g"
  by (simp add: add_edge_def Let_def add_node_def)

lemma perceive_signal_skip: "self \<notin> set (participants i) \<Longrightarrow> perceive_signal h self i g = g"
  by (simp add: perceive_signal_def)

lemma has_node_perceive_signal:
  "has_node (perceive_signal h self i g) m =
     (has_node g m \<or> (self \<in> set (participants i) \<and> m \<in> (\<lambda>p. id_e (h p)) ` set (participants i)))"
proof (cases "self \<in> set (participants i)")
  case False
  then show ?thesis by (simp add: perceive_signal_def)
next
  case True
  show ?thesis
  proof (cases "length (participants i) = 2")
    case False
    with True show ?thesis
      by (auto simp: perceive_signal_def Let_def has_node_upsert_fold)
  next
    case two: True
    then obtain a b where ab: "participants i = [a, b]"
      by (cases "participants i"; simp; cases "tl (participants i)"; force)
    with True show ?thesis
      by (auto simp: perceive_signal_def Let_def has_node_upsert_node has_node_add_edge)
  qed
qed

lemma edges_perceive_signal_binary:
  assumes "participants i = [a, b]" "self \<in> set (participants i)"
  shows "edges (perceive_signal h self i g) =
           AList.update (id_e (h b), id_e (h a), id_i i)
             \<lparr>e_type = interaction_type i, e_timestamp = timestamp i, e_metadata = metadata i\<rparr>
             (AList.update (id_e (h a), id_e (h b), id_i i)
                \<lparr>e_type = interaction_type i, e_timestamp = timestamp i, e_metadata = metadata i\<rparr>
                (edges g))"
  using assms by (simp add: perceive_signal_def Let_def edges_add_edge edges_upsert_node)

lemma edges_perceive_signal_other:
  assumes "length (participants i) \<noteq> 2"
  shows "edges (perceive_signal h self i g) = edges g"
  using assms by (simp add: perceive_signal_def Let_def edges_upsert_fold)

lemma list_of_length_two: "length xs = 2 \<Longrightarrow> \<exists>a b. xs = [a, b]"
  by (cases xs; simp; cases "tl xs"; force)

lemma edge_keys_perceive_signal:
  assumes "k \<in> fst ` set (edges (perceive_signal h self i g))"
  shows "k \<in> fst ` set (edges g) \<or> (self \<in> set (participants i) \<and> snd (snd k) = id_i i)"
proof (cases "self \<in> set (participants i) \<and> length (participants i) = 2")
  case False
  then show ?thesis
    using assms by (auto simp: perceive_signal_skip edges_perceive_signal_other)
next
  case True
  then obtain a b where ab: "participants i = [a, b]"
    using list_of_length_two by blast
  from True ab assms show ?thesis
    by (auto simp: edges_perceive_signal_binary dom_update)
qed

lemma has_node_perceive_each:
  "has_node (perceive_each self evs g) n \<Longrightarrow>
     has_node g n \<or> (\<exists>(h, i) \<in> set evs. self \<in> set (participants i)
                        \<and> n \<in> (\<lambda>p. id_e (h p)) ` set (participants i))"
  unfolding perceive_each_def
proof (induction evs arbitrary: g)
  case Nil
  then show ?case by simp
next
  case (Cons ev evs)
  obtain h i where ev: "ev = (h, i)" by (cases ev)
  from Cons.prems have "has_node (foldl (\<lambda>g (h, i). perceive_signal h self i g)
                            (perceive_signal h self i g) evs) n"
    by (simp add: ev)
  from Cons.IH [OF this] show ?case
    by (auto simp: ev has_node_perceive_signal)
qed

lemma edge_keys_perceive_each:
  "k \<in> fst ` set (edges (perceive_each self evs g)) \<Longrightarrow>
     k \<in> fst ` set (edges g) \<or> (\<exists>(h, i) \<in> set evs. self \<in> set (participants i)
                                   \<and> snd (snd k) = id_i i)"
  unfolding perceive_each_def
proof (induction evs arbitrary: g)
  case Nil
  then show ?case by simp
next
  case (Cons ev evs)
  obtain h i where ev: "ev = (h, i)" by (cases ev)
  from Cons.prems have "k \<in> fst ` set (edges (foldl (\<lambda>g (h, i). perceive_signal h self i g)
                            (perceive_signal h self i g) evs))"
    by (simp add: ev)
  from Cons.IH [OF this] show ?case
    using edge_keys_perceive_signal [of k h self i g] by (auto simp: ev)
qed

lemma map_of_update_self: "map_of (AList.update k v al) k = Some v"
  by (simp add: update_conv')

lemma map_of_update_other: "k' \<noteq> k \<Longrightarrow> map_of (AList.update k v al) k' = map_of al k'"
  by (simp add: update_conv')

lemma length_update_new:
  "k \<notin> fst ` set al \<Longrightarrow> length (AList.update k v al) = Suc (length al)"
  by (induction al) auto

lemma nodes_upsert_fold_keys:
  "fst ` set (nodes (foldl (upsert_node h) g ps)) = fst ` set (nodes g) \<union> (\<lambda>p. id_e (h p)) ` set ps"
  using has_node_upsert_fold [of h g ps] unfolding has_node_def by blast

lemma map_of_refresh:
  "map_of (map (\<lambda>(k, a). if k = n then (k, f a) else (k, a)) xs) m
     = (if m = n then map_option f (map_of xs m) else map_of xs m)"
  by (induction xs) auto

lemma keys_refresh_node: "map fst (nodes (refresh_node g n p t)) = map fst (nodes g)"
  by (auto simp: refresh_node_def split: if_splits)

lemma map_of_nodes_upsert_node:
  "map_of (nodes (upsert_node h g e)) n =
     (if n = id_e (h e) then
        Some (case map_of (nodes g) n of
                None \<Rightarrow> \<lparr>n_properties = Some (properties (h e)), n_scale = Some (scale (h e)),
                          n_local_time = Some (local_time (h e))\<rparr>
              | Some a \<Rightarrow> a\<lparr>n_properties := Some (properties (h e)),
                            n_local_time := Some (local_time (h e))\<rparr>)
      else map_of (nodes g) n)"
proof (cases "has_node g (id_e (h e))")
  case True
  then obtain a where "map_of (nodes g) (id_e (h e)) = Some a"
    unfolding has_node_def by (metis map_of_eq_None_iff not_None_eq)
  with True show ?thesis
    by (simp add: upsert_node_def refresh_node_def map_of_refresh)
next
  case False
  then have "map_of (nodes g) (id_e (h e)) = None"
    unfolding has_node_def by (simp add: map_of_eq_None_iff)
  with False show ?thesis
    by (auto simp: upsert_node_def add_node_def map_add_def split: option.splits)
qed

lemma keys_upsert_node_present:
  "has_node g (id_e (h e)) \<Longrightarrow> map fst (nodes (upsert_node h g e)) = map fst (nodes g)"
  by (simp add: upsert_node_def keys_refresh_node)

lemma keys_upsert_fold_present:
  "\<forall>p \<in> set ps. has_node g (id_e (h p)) \<Longrightarrow>
     map fst (nodes (foldl (upsert_node h) g ps)) = map fst (nodes g)"
proof (induction ps arbitrary: g)
  case Nil
  then show ?case by simp
next
  case (Cons p ps)
  have "\<forall>q \<in> set ps. has_node (upsert_node h g p) (id_e (h q))"
    using Cons.prems by (simp add: has_node_upsert_node)
  from Cons.IH [OF this] Cons.prems show ?case
    by (simp add: keys_upsert_node_present)
qed

lemma map_of_upsert_fold_other:
  "n \<notin> (\<lambda>p. id_e (h p)) ` set ps \<Longrightarrow>
     map_of (nodes (foldl (upsert_node h) g ps)) n = map_of (nodes g) n"
  by (induction ps arbitrary: g) (auto simp: map_of_nodes_upsert_node)

lemma map_of_upsert_fold_present:
  assumes "\<forall>q \<in> set ps. has_node g (id_e (h q))"
    and "inj_on (\<lambda>q. id_e (h q)) (set ps)"
    and "p \<in> set ps"
  shows "map_of (nodes (foldl (upsert_node h) g ps)) (id_e (h p))
           = map_option (refreshed h p) (map_of (nodes g) (id_e (h p)))"
  using assms
proof (induction ps arbitrary: g)
  case Nil
  then show ?case by simp
next
  case (Cons q qs)
  let ?g = "upsert_node h g q"
  have present: "\<forall>r \<in> set qs. has_node ?g (id_e (h r))"
    using Cons.prems(1) by (simp add: has_node_upsert_node)
  have inj: "inj_on (\<lambda>q. id_e (h q)) (set qs)"
    using Cons.prems(2) by (simp add: inj_on_def)
  obtain a where a: "map_of (nodes g) (id_e (h q)) = Some a"
    using Cons.prems(1) unfolding has_node_def
    by (metis list.set_intros(1) map_of_eq_None_iff not_None_eq)
  show ?case
  proof (cases "p \<in> set qs")
    case True
    have step: "map_of (nodes (foldl (upsert_node h) ?g qs)) (id_e (h p))
                = map_option (refreshed h p) (map_of (nodes ?g) (id_e (h p)))"
      using Cons.IH [OF present inj True] .
    show ?thesis
    proof (cases "p = q")
      case True
      then show ?thesis
        using step a by (simp add: map_of_nodes_upsert_node refreshed_def)
    next
      case False
      then have "id_e (h p) \<noteq> id_e (h q)"
        using Cons.prems(2,3) by (auto simp: inj_on_def)
      then show ?thesis
        using step by (simp add: map_of_nodes_upsert_node)
    qed
  next
    case False
    then have pq: "p = q" using Cons.prems(3) by simp
    have "id_e (h p) \<notin> (\<lambda>r. id_e (h r)) ` set qs"
      using False Cons.prems(2) pq by (auto simp: inj_on_def)
    then have "map_of (nodes (foldl (upsert_node h) ?g qs)) (id_e (h p))
                 = map_of (nodes ?g) (id_e (h p))"
      by (rule map_of_upsert_fold_other)
    then show ?thesis
      using a pq by (simp add: map_of_nodes_upsert_node refreshed_def)
  qed
qed

lemma nodes_perceive_signal:
  assumes "self \<in> set (participants i)"
  shows "nodes (perceive_signal h self i g) = nodes (foldl (upsert_node h) g (participants i))"
proof (cases "length (participants i) = 2")
  case False
  with assms show ?thesis by (simp add: perceive_signal_def Let_def)
next
  case True
  then obtain a b where ab: "participants i = [a, b]"
    using list_of_length_two by blast
  let ?g1 = "foldl (upsert_node h) g (participants i)"
  have na: "has_node ?g1 (id_e (h a))" and nb: "has_node ?g1 (id_e (h b))"
    by (simp_all add: has_node_upsert_node ab)
  let ?d = "\<lparr>e_type = interaction_type i, e_timestamp = timestamp i, e_metadata = metadata i\<rparr>"
  let ?g2 = "add_edge ?g1 (id_e (h a)) (id_e (h b)) (id_i i) ?d"
  have n2: "nodes ?g2 = nodes ?g1"
    using na nb by (rule nodes_add_edge_present)
  have "has_node ?g2 (id_e (h a))" "has_node ?g2 (id_e (h b))"
    by (simp_all add: has_node_add_edge)
  then have "nodes (add_edge ?g2 (id_e (h b)) (id_e (h a)) (id_i i) ?d) = nodes ?g2"
    by (simp add: nodes_add_edge_present)
  moreover have "perceive_signal h self i g = add_edge ?g2 (id_e (h b)) (id_e (h a)) (id_i i) ?d"
    using assms ab by (simp add: perceive_signal_def Let_def)
  ultimately show ?thesis using n2 by simp
qed

lemma edges_perceive_signal_again:
  assumes self: "self \<in> set (participants i)"
    and ids: "\<forall>p \<in> set (participants i). id_e (h2 p) = id_e (h p)"
  shows "edges (perceive_signal h2 self i (perceive_signal h self i g))
           = edges (perceive_signal h self i g)"
proof (cases "length (participants i) = 2")
  case False
  then show ?thesis by (simp add: edges_perceive_signal_other)
next
  case True
  then obtain a b where ab: "participants i = [a, b]"
    using list_of_length_two by blast
  let ?d = "\<lparr>e_type = interaction_type i, e_timestamp = timestamp i, e_metadata = metadata i\<rparr>"
  let ?k1 = "(id_e (h a), id_e (h b), id_i i)"
  let ?k2 = "(id_e (h b), id_e (h a), id_i i)"
  let ?g1 = "perceive_signal h self i g"
  have e1: "edges ?g1 = AList.update ?k2 ?d (AList.update ?k1 ?d (edges g))"
    using edges_perceive_signal_binary [OF ab self] .
  have m1: "map_of (edges ?g1) ?k1 = Some ?d" and m2: "map_of (edges ?g1) ?k2 = Some ?d"
    unfolding e1 by (simp_all add: update_conv')
  have "edges (perceive_signal h2 self i ?g1)
          = AList.update (id_e (h2 b), id_e (h2 a), id_i i) ?d
              (AList.update (id_e (h2 a), id_e (h2 b), id_i i) ?d (edges ?g1))"
    using edges_perceive_signal_binary [OF ab self] .
  also have "\<dots> = AList.update ?k2 ?d (AList.update ?k1 ?d (edges ?g1))"
    using ids ab by simp
  also have "\<dots> = edges ?g1"
    using m1 m2 by (simp add: update_triv)
  finally show ?thesis .
qed

lemma int_at_dict_get: "int_at d k dflt = Some n \<Longrightarrow> dict_get d k (PInt dflt) = PInt n"
  by (auto simp: int_at_def dict_get_def split: option.splits pyval.splits)

lemma apply_effects_shape:
  assumes "apply_effects i e h = Inr h'"
  shows "\<exists>e'. h' = h(e := e') \<and> interaction_history e' = interaction_history (h e)
              \<and> local_time e' = local_time (h e) \<and> id_e e' = id_e (h e)
              \<and> scale e' = scale (h e) \<and> reality_model e' = reality_model (h e)"
proof -
  have triv: "h = h(e := h e)" by simp
  from assms consider
      (upd) ps where "h' = h(e := (h e)\<lparr>properties := ps\<rparr>)"
    | (same) "h' = h"
    unfolding apply_effects_def Let_def by (auto split: if_splits sum.splits)
  then show ?thesis
  proof cases
    case upd
    then show ?thesis by (intro exI [of _ "(h e)\<lparr>properties := ps\<rparr>"]) simp
  next
    case same
    then show ?thesis by (intro exI [of _ "h e"]) simp
  qed
qed

lemma process_participant_shape:
  assumes "process_participant i e h = Inr h'"
  shows "\<exists>e'. h' = h(e := e') \<and> interaction_history e' = interaction_history (h e) @ [i]
              \<and> local_time e' = local_time (h e) + 1 \<and> id_e e' = id_e (h e)
              \<and> scale e' = scale (h e)"
proof -
  let ?h1 = "record_interaction i e h"
  from assms obtain h2 where h2: "apply_effects i e ?h1 = Inr h2"
    and h': "h' = (case reality_model (h2 e) of None \<Rightarrow> h2
                   | Some g \<Rightarrow> h2(e := (h2 e)\<lparr>reality_model := Some (perceive_signal h2 e i g)\<rparr>))"
    by (auto simp: process_participant_def Let_def split: sum.splits)
  from apply_effects_shape [OF h2] obtain e2 where e2: "h2 = ?h1(e := e2)"
    "interaction_history e2 = interaction_history (?h1 e)" "local_time e2 = local_time (?h1 e)"
    "id_e e2 = id_e (?h1 e)" "scale e2 = scale (?h1 e)"
    by blast
  show ?thesis
  proof (cases "reality_model (h2 e)")
    case None
    then have "h' = h(e := e2)"
      using h' e2(1) by (simp add: record_interaction_def)
    then show ?thesis
      using e2 by (intro exI [of _ e2]) (simp add: record_interaction_def)
  next
    case (Some g)
    then have "h' = h(e := e2\<lparr>reality_model := Some (perceive_signal h2 e i g)\<rparr>)"
      using h' e2(1) by (simp add: record_interaction_def)
    then show ?thesis
      using e2
      by (intro exI [of _ "e2\<lparr>reality_model := Some (perceive_signal h2 e i g)\<rparr>"])
         (simp add: record_interaction_def)
  qed
qed

lemma process_participant_frame:
  "process_participant i e h = Inr h' \<Longrightarrow> r \<noteq> e \<Longrightarrow> h' r = h r"
  using process_participant_shape by fastforce

lemma process_participant_history:
  "process_participant i e h = Inr h' \<Longrightarrow>
     interaction_history (h' r) = interaction_history (h r) @ (if r = e then [i] else [])
     \<and> local_time (h' r) = local_time (h r) + (if r = e then 1 else 0)
     \<and> id_e (h' r) = id_e (h r) \<and> scale (h' r) = scale (h r)"
  using process_participant_shape [of i e h h'] by fastforce

lemma process_participants_frame:
  "process_participants i es h = Inr h' \<Longrightarrow> r \<notin> set es \<Longrightarrow> h' r = h r"
proof (induction es arbitrary: h)
  case Nil
  then show ?case by simp
next
  case (Cons e es)
  from Cons.prems(1) obtain h1 where h1: "process_participant i e h = Inr h1"
    and rest: "process_participants i es h1 = Inr h'"
    by (auto split: sum.splits)
  from Cons.prems(2) have "r \<noteq> e" "r \<notin> set es" by auto
  then show ?case
    using Cons.IH [OF rest] process_participant_frame [OF h1] by simp
qed

lemma process_participants_history:
  "process_participants i es h = Inr h' \<Longrightarrow>
     interaction_history (h' r) = interaction_history (h r) @ map (\<lambda>p. i) (filter (\<lambda>p. p = r) es)
     \<and> local_time (h' r) = local_time (h r) + int (length (filter (\<lambda>p. p = r) es))"
proof (induction es arbitrary: h)
  case Nil
  then show ?case by simp
next
  case (Cons e es)
  from Cons.prems(1) obtain h1 where h1: "process_participant i e h = Inr h1"
    and rest: "process_participants i es h1 = Inr h'"
    by (auto split: sum.splits)
  show ?case
    using Cons.IH [OF rest] process_participant_history [OF h1, of r] by simp
qed

lemma process_interactions_frame:
  "process_interactions is h = Inr h' \<Longrightarrow> r \<notin> (\<Union>i \<in> set is. set (participants i)) \<Longrightarrow> h' r = h r"
proof (induction "is" arbitrary: h)
  case Nil
  then show ?case by simp
next
  case (Cons i "is")
  from Cons.prems(1) obtain h1 where h1: "process_participants i (participants i) h = Inr h1"
    and rest: "process_interactions is h1 = Inr h'"
    by (auto split: sum.splits)
  from Cons.prems(2) have "r \<notin> set (participants i)" "r \<notin> (\<Union>i \<in> set is. set (participants i))"
    by auto
  then show ?case
    using Cons.IH [OF rest] process_participants_frame [OF h1] by simp
qed

lemma process_interactions_history:
  "process_interactions is h = Inr h' \<Longrightarrow>
     interaction_history (h' r) = interaction_history (h r) @ recorded_for r is
     \<and> local_time (h' r) = local_time (h r) + int (length (recorded_for r is))"
proof (induction "is" arbitrary: h)
  case Nil
  then show ?case by (simp add: recorded_for_def)
next
  case (Cons i "is")
  from Cons.prems(1) obtain h1 where h1: "process_participants i (participants i) h = Inr h1"
    and rest: "process_interactions is h1 = Inr h'"
    by (auto split: sum.splits)
  show ?case
    using Cons.IH [OF rest] process_participants_history [OF h1, of r]
    by (simp add: recorded_for_def)
qed

lemma run_rules_outputs:
  "run_rules rules ents h acc x =
     (case rule_outputs rules ents h x of
        Inl err \<Rightarrow> Inl err
      | Inr (outs, x') \<Rightarrow> Inr (acc @ concat (map contribution outs), x'))"
proof (induction rules arbitrary: acc x)
  case Nil
  then show ?case by simp
next
  case (Cons rule rules)
  show ?case
  proof (cases "rule ents h x")
    case (Inl err)
    then show ?thesis by simp
  next
    case (Inr res)
    obtain out x1 where res: "res = (out, x1)" by (cases res)
    show ?thesis
    proof (cases "rule_outputs rules ents h x1")
      case (Inl err)
      then show ?thesis using Inr res Cons.IH by simp
    next
      case rest: (Inr res2)
      obtain outs x2 where res2: "res2 = (outs, x2)" by (cases res2)
      show ?thesis
        using Inr res rest res2 Cons.IH
        by (cases out) (simp_all add: contribution_def)
    qed
  qed
qed

lemma apply_effects_gravity:
  assumes "interaction_type i = ''gravity''"
    and "int_at (properties (h e)) ''mass'' 0 = Some m"
    and "int_at (metadata i) ''mass_change'' 1 = Some c"
  shows "apply_effects i e h
           = Inr (h(e := (h e)\<lparr>properties := (properties (h e))(''mass'' \<mapsto> PInt (m + c))\<rparr>))"
  using assms by (simp add: apply_effects_def Let_def int_at_dict_get)

lemma apply_effects_fusion:
  assumes "interaction_type i = ''fusion''"
    and "int_at (properties (h e)) ''energy'' 0 = Some m"
    and "int_at (metadata i) ''energy_gain'' 10 = Some c"
  shows "apply_effects i e h
           = Inr (h(e := (h e)\<lparr>properties := (properties (h e))(''energy'' \<mapsto> PInt (m + c))\<rparr>))"
  using assms by (simp add: apply_effects_def Let_def int_at_dict_get)

lemma apply_effects_group_formed:
  assumes "interaction_type i = ''group_formed''"
  shows "apply_effects i e h
           = Inr (h(e := (h e)\<lparr>properties :=
                    (properties (h e))(''group_id'' \<mapsto> dict_get (metadata i) ''group_id'' PNone)\<rparr>))"
  using assms by (simp add: apply_effects_def)

lemma apply_effects_other:
  assumes "interaction_type i \<noteq> ''gravity''" "interaction_type i \<noteq> ''fusion''"
    "interaction_type i \<noteq> ''group_formed''"
  shows "apply_effects i e h = Inr h"
  using assms by (simp add: apply_effects_def)

lemma process_participant_gravity:
  assumes "interaction_type i = ''gravity''"
    and "int_at (properties (h e)) ''mass'' 0 = Some m"
    and "int_at (metadata i) ''mass_change'' 1 = Some c"
  shows "\<exists>h'. process_participant i e h = Inr h'
            \<and> properties (h' e) = (properties (h e))(''mass'' \<mapsto> PInt (m + c))"
proof -
  let ?h1 = "record_interaction i e h"
  have "int_at (properties (?h1 e)) ''mass'' 0 = Some m"
    using assms(2) by (simp add: record_interaction_def)
  from apply_effects_gravity [of i ?h1 e m c, OF assms(1) this assms(3)]
  show ?thesis
    by (simp add: process_participant_def Let_def record_interaction_def split: option.splits)
qed

lemma tick_single_gravity:
  assumes rules: "run_rules (interaction_rules u) (entities u) h [] x = Inr ([i], x')"
    and parts: "participants i = [a, b]" and ab: "a \<noteq> b"
    and ty: "interaction_type i = ''gravity''"
    and mc: "metadata i ''mass_change'' = Some (PInt 2)"
    and ma: "int_at (properties (h a)) ''mass'' 0 = Some ma"
    and mb: "int_at (properties (h b)) ''mass'' 0 = Some mb"
  shows "\<exists>u' h'. tick u h x = Inr ([i], u', h', x')
            \<and> properties (h' a) ''mass'' = Some (PInt (ma + 2))
            \<and> properties (h' b) ''mass'' = Some (PInt (mb + 2))
            \<and> local_time (h' a) = local_time (h a) + 1
            \<and> local_time (h' b) = local_time (h b) + 1
            \<and> length (interaction_history (h' a)) = length (interaction_history (h a)) + 1
            \<and> length (interaction_history (h' b)) = length (interaction_history (h b)) + 1"
proof -
  have c: "int_at (metadata i) ''mass_change'' 1 = Some 2"
    using mc by (simp add: int_at_def)
  from process_participant_gravity [of i h a ma 2, OF ty ma c]
  obtain h1 where h1: "process_participant i a h = Inr h1"
    and p1: "properties (h1 a) = (properties (h a))(''mass'' \<mapsto> PInt (ma + 2))"
    by blast
  have "h1 b = h b"
    using process_participant_frame [OF h1] ab by simp
  then have "int_at (properties (h1 b)) ''mass'' 0 = Some mb"
    using mb by simp
  from process_participant_gravity [of i h1 b mb 2, OF ty this c]
  obtain h2 where h2: "process_participant i b h1 = Inr h2"
    and p2: "properties (h2 b) = (properties (h1 b))(''mass'' \<mapsto> PInt (mb + 2))"
    by blast
  have a2: "h2 a = h1 a"
    using process_participant_frame [OF h2] ab by simp
  have pi: "process_interactions [i] h = Inr h2"
    using h1 h2 parts by simp
  have t: "tick u h x = Inr ([i], u\<lparr>interaction_history_u := interaction_history_u u @ [i]\<rparr>, h2, x')"
    using rules pi by (simp add: tick_def)
  have hist: "\<And>r. interaction_history (h2 r) = interaction_history (h r) @ recorded_for r [i]
                 \<and> local_time (h2 r) = local_time (h r) + int (length (recorded_for r [i]))"
    using process_interactions_history [OF pi] by blast
  have ra: "recorded_for a [i] = [i]" and rb: "recorded_for b [i] = [i]"
    using parts ab by (auto simp: recorded_for_def)
  show ?thesis
    using t p1 p2 a2 hist [of a] hist [of b] ra rb by simp
qed

lemmas ex_defs = example_entity_def example_heap_def example_interaction_def empty_graph_def
  perceive_signal_def perceive_each_def upsert_node_def add_node_def add_edge_def has_node_def
  refresh_node_def no_attrs_def number_of_edges_def number_of_nodes_def Let_def

lemmas ex2_defs = example_universe_def example_rule_def tick_def process_participant_def
  record_interaction_def apply_effects_def dict_get_def recorded_for_def contribution_def

lemma perceive_each_snoc:
  "perceive_each self (evs @ [(h, i)]) g = perceive_signal h self i (perceive_each self evs g)"
  by (simp add: perceive_each_def)

lemma has_node_perceive_each_iff:
  "has_node (perceive_each self evs g) n \<longleftrightarrow>
     has_node g n \<or> (\<exists>(h, i) \<in> set evs. self \<in> set (participants i)
                        \<and> n \<in> (\<lambda>p. id_e (h p)) ` set (participants i))"
proof (induction evs rule: rev_induct)
  case Nil
  then show ?case by (simp add: perceive_each_def)
next
  case (snoc ev evs)
  obtain h i where ev: "ev = (h, i)" by (cases ev)
  show ?case
    unfolding ev perceive_each_snoc has_node_perceive_signal snoc.IH by auto
qed

lemma distinct_keys_add_node:
  "distinct (map fst (nodes g)) \<Longrightarrow> distinct (map fst (nodes (add_node g n a)))"
  by (auto simp: add_node_def has_node_def)

lemma distinct_keys_upsert_node:
  "distinct (map fst (nodes g)) \<Longrightarrow> distinct (map fst (nodes (upsert_node h g e)))"
  by (simp add: upsert_node_def distinct_keys_add_node keys_refresh_node)

lemma distinct_keys_upsert_fold:
  "distinct (map fst (nodes g)) \<Longrightarrow> distinct (map fst (nodes (foldl (upsert_node h) g ps)))"
  by (induction ps arbitrary: g) (simp_all add: distinct_keys_upsert_node)

lemma distinct_keys_perceive_signal:
  assumes "distinct (map fst (nodes g))"
  shows "distinct (map fst (nodes (perceive_signal h self i g)))"
proof (cases "self \<in> set (participants i)")
  case True
  then show ?thesis
    using assms by (simp add: nodes_perceive_signal distinct_keys_upsert_fold)
next
  case False
  then show ?thesis using assms by (simp add: perceive_signal_skip)
qed

lemma distinct_keys_perceive_each:
  "distinct (map fst (nodes g)) \<Longrightarrow> distinct (map fst (nodes (perceive_each self evs g)))"
proof (induction evs rule: rev_induct)
  case Nil
  then show ?case by (simp add: perceive_each_def)
next
  case (snoc ev evs)
  obtain h i where ev: "ev = (h, i)" by (cases ev)
  show ?case
    unfolding ev perceive_each_snoc
    using snoc by (intro distinct_keys_perceive_signal) simp
qed

lemma number_of_nodes_card:
  "distinct (map fst (nodes g)) \<Longrightarrow> number_of_nodes g = card {n. has_node g n}"
proof -
  assume d: "distinct (map fst (nodes g))"
  have "{n. has_node g n} = set (map fst (nodes g))"
    by (auto simp: has_node_def)
  then show ?thesis
    using distinct_card [OF d] by (simp add: number_of_nodes_def)
qed

lemma number_of_edges_perceive_meets:
  assumes m: "meets h self i"
    and fresh: "\<forall>k \<in> fst ` set (edges g). snd (snd k) \<noteq> id_i i"
  shows "number_of_edges (perceive_signal h self i g) = number_of_edges g + 2"
proof -
  from m obtain a b where ab: "participants i = [a, b]" and self: "self \<in> set (participants i)"
    and ne: "id_e (h a) \<noteq> id_e (h b)"
    unfolding meets_def by auto
  let ?d = "\<lparr>e_type = interaction_type i, e_timestamp = timestamp i, e_metadata = metadata i\<rparr>"
  let ?k1 = "(id_e (h a), id_e (h b), id_i i)"
  let ?k2 = "(id_e (h b), id_e (h a), id_i i)"
  have n1: "?k1 \<notin> fst ` set (edges g)" and n2: "?k2 \<notin> fst ` set (edges g)"
    using fresh by force+
  have "?k2 \<notin> fst ` set (AList.update ?k1 ?d (edges g))"
    using n2 ne by (simp add: dom_update)
  then have "length (AList.update ?k2 ?d (AList.update ?k1 ?d (edges g))) = length (edges g) + 2"
    using n1 by (simp add: length_update_new)
  then show ?thesis
    unfolding number_of_edges_def edges_perceive_signal_binary [OF ab self] .
qed

lemma number_of_edges_perceive_each_meets:
  assumes "\<forall>i \<in> set is. meets h self i"
    and "distinct (map id_i is)"
    and "\<forall>k \<in> fst ` set (edges g). snd (snd k) \<notin> id_i ` set is"
  shows "number_of_edges (perceive_each self (map (Pair h) is) g)
           = number_of_edges g + 2 * length is"
  using assms
proof (induction "is" rule: rev_induct)
  case Nil
  then show ?case by (simp add: perceive_each_def)
next
  case (snoc i "is")
  let ?G = "perceive_each self (map (Pair h) is) g"
  have IH: "number_of_edges ?G = number_of_edges g + 2 * length is"
    using snoc by simp
  have fresh: "\<forall>k \<in> fst ` set (edges ?G). snd (snd k) \<noteq> id_i i"
  proof
    fix k assume "k \<in> fst ` set (edges ?G)"
    from edge_keys_perceive_each [OF this]
    have "k \<in> fst ` set (edges g) \<or> snd (snd k) \<in> id_i ` set is"
      by auto
    moreover have "id_i i \<notin> id_i ` set is"
      using snoc.prems(2) by simp
    moreover have "\<forall>k \<in> fst ` set (edges g). snd (snd k) \<noteq> id_i i"
      using snoc.prems(3) by simp
    ultimately show "snd (snd k) \<noteq> id_i i"
      by metis
  qed
  have "meets h self i" using snoc.prems(1) by simp
  from number_of_edges_perceive_meets [OF this fresh] IH
  show ?case by (simp add: perceive_each_snoc)
qed

lemma count_group_node_group:
  "count_group g c n = (case node_group g n of None \<Rightarrow> c | Some gid \<Rightarrow> counter_add c gid)"
  by (simp add: count_group_def node_group_def Let_def split: option.splits)

lemma map_of_counter_add:
  "map_of (counter_add c k) k' =
     (if k' = k then Some (case map_of c k of None \<Rightarrow> 1 | Some n \<Rightarrow> n + 1) else map_of c k')"
  by (simp add: counter_add_def update_conv')

lemma distinct_counter_add:
  "distinct (map fst c) \<Longrightarrow> distinct (map fst (counter_add c k))"
  by (simp add: counter_add_def distinct_update)

lemma distinct_count_group_fold:
  "distinct (map fst c) \<Longrightarrow> distinct (map fst (foldl (count_group g) c ns))"
  by (induction ns arbitrary: c)
     (auto simp: count_group_node_group distinct_counter_add split: option.splits)

lemma map_of_count_group_fold:
  "map_of (foldl (count_group g) c ns) gid =
     (case map_of c gid of
        None \<Rightarrow> (if length (filter (\<lambda>n. node_group g n = Some gid) ns) = 0 then None
                  else Some (length (filter (\<lambda>n. node_group g n = Some gid) ns)))
      | Some k \<Rightarrow> Some (k + length (filter (\<lambda>n. node_group g n = Some gid) ns)))"
proof (induction ns arbitrary: c)
  case Nil
  then show ?case by (simp split: option.splits)
next
  case (Cons n ns)
  show ?case
  proof (cases "node_group g n")
    case None
    then show ?thesis
      using Cons.IH [of c] by (simp add: count_group_node_group split: option.splits)
  next
    case (Some gid')
    then show ?thesis
      using Cons.IH [of "counter_add c gid'"]
      by (auto simp: count_group_node_group map_of_counter_add split: option.splits)
  qed
qed

lemma members_as_filter:
  assumes "distinct (map fst (nodes g))"
  shows "length (filter (\<lambda>n. node_group g n = Some gid) (map fst (nodes g)))
           = perceived_members g gid"
proof -
  have "{n. has_node g n \<and> node_group g n = Some gid}
          = {n \<in> set (map fst (nodes g)). node_group g n = Some gid}"
    by (auto simp: has_node_def)
  then show ?thesis
    unfolding perceived_members_def
    using distinct_length_filter [OF assms, of "\<lambda>n. node_group g n = Some gid"]
    by (simp add: Int_def conj_commute)
qed

lemma perceived_groups_members:
  assumes "distinct (map fst (nodes g))"
  shows "(gid, c) \<in> set (perceived_groups (find_patterns g))
           \<longleftrightarrow> c > 1 \<and> c = perceived_members g gid"
proof -
  let ?cs = "foldl (count_group g) [] (map fst (nodes g))"
  have d: "distinct (map fst ?cs)"
    by (rule distinct_count_group_fold) simp
  have m: "map_of ?cs gid = (if perceived_members g gid = 0 then None
                             else Some (perceived_members g gid))"
    unfolding map_of_count_group_fold members_as_filter [OF assms] by simp
  have "(gid, c) \<in> set ?cs \<longleftrightarrow> map_of ?cs gid = Some c"
    using d by simp
  then have "(gid, c) \<in> set ?cs \<longleftrightarrow> c = perceived_members g gid \<and> c \<noteq> 0"
    using m by auto
  then show ?thesis
    by (auto simp: find_patterns_def)
qed

lemma no_node_empty_graph: "\<not> has_node empty_graph n"
  by (simp add: has_node_def empty_graph_def)

lemma nodes_of_meetings:
  assumes m: "\<forall>i \<in> set is. meets h self i" and ne: "is \<noteq> []"
  shows "{n. has_node (perceive_each self (map (Pair h) is) empty_graph) n}
           = insert (id_e (h self)) (other_ids h self is)"
proof -
  have self: "\<forall>i \<in> set is. self \<in> set (participants i)"
    using m unfolding meets_def by auto
  obtain i0 where i0: "i0 \<in> set is" using ne by (cases "is") auto
  have "{n. has_node (perceive_each self (map (Pair h) is) empty_graph) n}
          = (\<lambda>p. id_e (h p)) ` (\<Union>i \<in> set is. set (participants i))"
    using self no_node_empty_graph
    by (auto simp: has_node_perceive_each_iff)
  also have "\<dots> = insert (id_e (h self)) (other_ids h self is)"
    using self i0 unfolding other_ids_def by auto
  finally show ?thesis .
qed

lemma find_patterns_meetings_general:
  assumes m: "\<forall>i \<in> set is. meets h self i"
    and d: "distinct (map id_i is)"
    and ne: "is \<noteq> []"
  shows "num_perceived_entities (find_patterns (perceive_each self (map (Pair h) is) empty_graph))
           = Suc (card (other_ids h self is))"
    and "num_perceived_relationships
           (find_patterns (perceive_each self (map (Pair h) is) empty_graph))
           = 2 * length is"
proof -
  let ?G = "perceive_each self (map (Pair h) is) empty_graph"
  have dk: "distinct (map fst (nodes ?G))"
    by (rule distinct_keys_perceive_each) (simp add: empty_graph_def)
  have fin: "finite (other_ids h self is)"
    unfolding other_ids_def by simp
  have notin: "id_e (h self) \<notin> other_ids h self is"
    unfolding other_ids_def by simp
  have "number_of_nodes ?G = card (insert (id_e (h self)) (other_ids h self is))"
    using number_of_nodes_card [OF dk] nodes_of_meetings [OF m ne] by simp
  then show "num_perceived_entities (find_patterns ?G) = Suc (card (other_ids h self is))"
    using fin notin by (simp add: find_patterns_def)
  have "number_of_edges ?G = number_of_edges empty_graph + 2 * length is"
    using m d by (rule number_of_edges_perceive_each_meets) (simp add: empty_graph_def)
  then show "num_perceived_relationships (find_patterns ?G) = 2 * length is"
    by (simp add: find_patterns_def number_of_edges_def empty_graph_def)
qed

lemmas ex3_defs = example_meetings_def example_heap_groups_def other_ids_def meets_def
  find_patterns_def count_group_def counter_add_def enumerate_eq_zip

lemma bond_recorded:
  "\<exists>H. process_interactions [example_bond] example_heap = Inr H
     \<and> interaction_history (H 1) = [example_bond] \<and> interaction_history (H 2) = [example_bond]
     \<and> properties (H 1) = Map.empty \<and> properties (H 2) = Map.empty
     \<and> id_e (H 1) = 101 \<and> id_e (H 2) = 102"
  by (simp add: example_bond_def ex_defs process_participant_def record_interaction_def
        apply_effects_def)

lemma counts_once:
  assumes "interaction_history (H 1) = [example_bond]" "interaction_history (H 2) = [example_bond]"
    "id_e (H 1) = 101" "id_e (H 2) = 102"
  shows "interaction_counts_of H [1, 2] = [({101, 102}, 2)]"
  using assms
  by (simp add: interaction_counts_of_def count_history_entry_def example_bond_def
        example_interaction_def counter_add_def insert_commute)

lemma group_for_bond:
  assumes fl: "fl {101, 102} = [101, 102] \<or> fl {101, 102} = [102, 101]"
    and H: "properties (H 1) = Map.empty" "properties (H 2) = Map.empty"
      "id_e (H 1) = 101" "id_e (H 2) = 102"
  shows "\<exists>i ev'. group_for_pair fl us 2 [1, 2] H ({101, 102}, 2) ev = Inr (Some i, ev')
           \<and> interaction_type i = ''group_formed''
           \<and> set (participants i) = {1, 2}
           \<and> metadata i ''group_id'' = Some (PStr (us (uuid_src ev (uuid_pos ev))))"
  using fl
proof
  assume "fl {101, 102} = [101, 102]"
  then show ?thesis
    using H
    by (simp add: group_for_pair_def next_entity_def dict_get_def uuid4_def time_time_def
          Interaction_init_def Let_def)
next
  assume "fl {101, 102} = [102, 101]"
  then show ?thesis
    using H
    by (auto simp: group_for_pair_def next_entity_def dict_get_def uuid4_def time_time_def
          Interaction_init_def Let_def)
qed

lemma map_of_nodes_upsert_node_upserted:
  "map_of (nodes (upsert_node h g e)) n =
     (if n = id_e (h e) then Some (upserted h e (map_of (nodes g) n)) else map_of (nodes g) n)"
  by (simp add: map_of_nodes_upsert_node upserted_def first_seen_def refreshed_def
        split: option.splits)

lemma upserted_again: "upserted h p (Some (upserted h p old)) = upserted h p old"
  by (cases old) (simp_all add: upserted_def first_seen_def refreshed_def)

lemma map_of_upsert_fold_inj:
  assumes "inj_on (\<lambda>q. id_e (h q)) (set ps)" and "p \<in> set ps"
  shows "map_of (nodes (foldl (upsert_node h) g ps)) (id_e (h p))
           = Some (upserted h p (map_of (nodes g) (id_e (h p))))"
  using assms
proof (induction ps arbitrary: g)
  case Nil
  then show ?case by simp
next
  case (Cons q qs)
  let ?g = "upsert_node h g q"
  have inj: "inj_on (\<lambda>q. id_e (h q)) (set qs)"
    using Cons.prems(1) by (simp add: inj_on_def)
  show ?case
  proof (cases "p \<in> set qs")
    case True
    have step: "map_of (nodes (foldl (upsert_node h) ?g qs)) (id_e (h p))
                  = Some (upserted h p (map_of (nodes ?g) (id_e (h p))))"
      using Cons.IH [OF inj True] .
    show ?thesis
    proof (cases "p = q")
      case True
      then show ?thesis
        using step by (simp add: map_of_nodes_upsert_node_upserted upserted_again)
    next
      case False
      then have "id_e (h p) \<noteq> id_e (h q)"
        using Cons.prems by (auto simp: inj_on_def)
      then show ?thesis
        using step by (simp add: map_of_nodes_upsert_node_upserted)
    qed
  next
    case False
    then have pq: "p = q" using Cons.prems(2) by simp
    have "id_e (h p) \<notin> (\<lambda>r. id_e (h r)) ` set qs"
      using False Cons.prems(1) pq by (auto simp: inj_on_def)
    then have "map_of (nodes (foldl (upsert_node h) ?g qs)) (id_e (h p))
                 = map_of (nodes ?g) (id_e (h p))"
      by (rule map_of_upsert_fold_other)
    then show ?thesis
      using pq by (simp add: map_of_nodes_upsert_node_upserted)
  qed
qed

lemma perceive_signal_nodes_upserted:
  assumes self: "self \<in> set (participants i)"
  shows "(\<forall>n. n \<notin> (\<lambda>p. id_e (h p)) ` set (participants i) \<longrightarrow>
            map_of (nodes (perceive_signal h self i g)) n = map_of (nodes g) n)"
    and "inj_on (\<lambda>p. id_e (h p)) (set (participants i)) \<Longrightarrow> p \<in> set (participants i) \<Longrightarrow>
           map_of (nodes (perceive_signal h self i g)) (id_e (h p))
             = Some (upserted h p (map_of (nodes g) (id_e (h p))))"
proof -
  have n: "nodes (perceive_signal h self i g) = nodes (foldl (upsert_node h) g (participants i))"
    using self by (rule nodes_perceive_signal)
  show "\<forall>n. n \<notin> (\<lambda>p. id_e (h p)) ` set (participants i) \<longrightarrow>
            map_of (nodes (perceive_signal h self i g)) n = map_of (nodes g) n"
    unfolding n by (simp add: map_of_upsert_fold_other)
  show "map_of (nodes (perceive_signal h self i g)) (id_e (h p))
             = Some (upserted h p (map_of (nodes g) (id_e (h p))))"
    if "inj_on (\<lambda>p. id_e (h p)) (set (participants i))" "p \<in> set (participants i)"
    unfolding n using that by (rule map_of_upsert_fold_inj)
qed

lemma binade_numeral:
  "binade (numeral k) x =
     (if x < 1 then binade (pred_numeral k) (2 * x) - 1
      else if 2 \<le> x then binade (pred_numeral k) (x / 2) + 1 else 0)"
  by (simp add: numeral_eq_Suc)

lemma round_half_even_neg: "round_half_even (- y) = - round_half_even y"
proof (cases "y = of_int \<lfloor>y\<rfloor>")
  case True
  then have "\<lfloor>- y\<rfloor> = - \<lfloor>y\<rfloor>"
    by (metis floor_of_int of_int_minus)
  with True show ?thesis
    by (simp add: round_half_even_def Let_def)
next
  case False
  then have fl: "\<lfloor>- y\<rfloor> = - \<lfloor>y\<rfloor> - 1"
    by (metis ceiling_altdef ceiling_def minus_diff_eq minus_minus add.commute diff_minus_eq_add)
  have d: "0 < y - of_int \<lfloor>y\<rfloor>" "y - of_int \<lfloor>y\<rfloor> < 1"
    using False by linarith+
  show ?thesis
    unfolding round_half_even_def Let_def fl
    using d by (auto simp: algebra_simps)
qed

lemma round_half_even_le: "y \<le> of_int N \<Longrightarrow> round_half_even y \<le> N"
proof -
  assume a: "y \<le> of_int N"
  then have f: "\<lfloor>y\<rfloor> \<le> N" by (simp add: floor_le_iff)
  show ?thesis
  proof (cases "\<lfloor>y\<rfloor> = N")
    case True
    then have "y = of_int N" using a by linarith
    then show ?thesis by (simp add: round_half_even_def Let_def)
  next
    case False
    with f have "\<lfloor>y\<rfloor> + 1 \<le> N" by simp
    then show ?thesis
      by (auto simp: round_half_even_def Let_def)
  qed
qed

lemma round_half_even_nonneg: "0 \<le> y \<Longrightarrow> 0 \<le> round_half_even y"
  by (auto simp: round_half_even_def Let_def)

lemma binade_le_0: "0 \<le> x \<Longrightarrow> x < 2 \<Longrightarrow> binade n x \<le> 0"
proof (induction n arbitrary: x)
  case 0
  then show ?case by simp
next
  case (Suc n)
  show ?case
  proof (cases "x < 1")
    case True
    then have "binade n (2 * x) \<le> 0"
      using Suc.prems by (intro Suc.IH) auto
    with True show ?thesis by simp
  next
    case False
    with Suc.prems show ?thesis by simp
  qed
qed

lemma round64_neg: "round64 (- x) = fp_neg (round64 x)"
proof -
  define q :: real where "q = 2 powi (max (- 1022) (binade 1100 \<bar>x\<bar>) - 52)"
  define r where "r = of_int (round_half_even (x / q)) * q"
  define B :: real where "B = 2 powi 1024"
  have big: "0 < B" by (simp add: B_def del: power_int_numeral)
  have "round64 x = (if B \<le> r then PInf else if r \<le> - B then NInf else Fin r)"
    by (simp add: round64_def Let_def q_def r_def B_def del: power_int_numeral)
  moreover have "round64 (- x) =
      (if B \<le> - r then PInf else if - r \<le> - B then NInf else Fin (- r))"
    by (simp add: round64_def Let_def q_def r_def B_def round_half_even_neg
          del: power_int_numeral)
  ultimately show ?thesis
    using big by auto
qed

lemma round64_bounded:
  assumes x0: "0 \<le> x" and xc: "x \<le> 2 powi j" and j: "- 52 \<le> j" "j \<le> 0"
  shows "\<exists>r. round64 x = Fin r \<and> 0 \<le> r \<and> r \<le> 2 powi j"
proof -
  define e where "e = max (- 1022) (binade 1100 \<bar>x\<bar>)"
  define q :: real where "q = 2 powi (e - 52)"
  define r where "r = of_int (round_half_even (x / q)) * q"
  have c1: "(2::real) powi j \<le> 1"
    using power_int_increasing [of j 0 "2::real"] j(2) by simp
  have "binade 1100 \<bar>x\<bar> \<le> 0"
    using x0 xc c1 by (intro binade_le_0) auto
  then have e: "e \<le> 0" "- 1022 \<le> e"
    by (auto simp: e_def)
  have q0: "0 < q" by (simp add: q_def)
  define k where "k = j - e + 52"
  have k0: "0 \<le> k" using e j by (simp add: k_def)
  define N :: int where "N = 2 ^ nat k"
  have Nq: "of_int N * q = 2 powi j"
  proof -
    have "of_int N = (2::real) powi k"
      using k0 by (simp add: N_def power_int_def)
    moreover have "q = 2 powi (j - k)"
      by (simp add: q_def k_def)
    moreover have "(2::real) powi (k + (j - k)) = 2 powi k * 2 powi (j - k)"
      by (rule power_int_add) simp
    ultimately show ?thesis by simp
  qed
  have "x / q \<le> of_int N"
    using xc q0 Nq by (simp add: field_simps)
  then have "round_half_even (x / q) \<le> N"
    by (rule round_half_even_le)
  then have "of_int (round_half_even (x / q)) * q \<le> of_int N * q"
    using q0 by (simp add: mult_right_mono)
  then have rc: "r \<le> 2 powi j"
    using Nq by (simp add: r_def)
  have "0 \<le> round_half_even (x / q)"
    using x0 q0 by (intro round_half_even_nonneg) simp
  then have r0: "0 \<le> r"
    using q0 by (simp add: r_def)
  define B :: real where "B = 2 powi 1024"
  have big: "1 < B"
    using power_int_strict_increasing [of 0 1024 "2::real"] by (simp add: B_def del: power_int_numeral)
  have "round64 x = (if B \<le> r then PInf else if r \<le> - B then NInf else Fin r)"
    by (simp add: round64_def Let_def e_def q_def r_def B_def del: power_int_numeral)
  then have "round64 x = Fin r"
    using rc c1 r0 big by auto
  with r0 rc show ?thesis by blast
qed

lemma round64_0: "round64 0 = Fin 0"
  by (simp add: round64_def Let_def round_half_even_def)

lemma round64_1: "round64 1 = Fin 1"
  by (simp add: round64_def binade_numeral round_half_even_def Let_def power_int_minus_divide)

lemma fp_abs_neg: "fp_abs (fp_neg v) = fp_abs v"
  by (cases v) simp_all

lemma dist_symmetric: "fp_abs (fp_sub (Fin a) (Fin b)) = fp_abs (fp_sub (Fin b) (Fin a))"
proof -
  have "round64 (b - a) = fp_neg (round64 (a - b))"
    using round64_neg [of "a - b"] by simp
  then show ?thesis by (simp add: fp_abs_neg)
qed

lemma dist_in_unit:
  assumes "0 \<le> a" "a \<le> 1" "0 \<le> b" "b \<le> 1"
  shows "\<exists>d. fp_abs (fp_sub (Fin a) (Fin b)) = Fin d \<and> 0 \<le> d \<and> d \<le> 1"
proof (cases "b \<le> a")
  case True
  from round64_bounded [of "a - b" 0] True assms
  obtain r where "round64 (a - b) = Fin r" "0 \<le> r" "r \<le> 1" by auto
  then show ?thesis by simp
next
  case False
  from round64_bounded [of "b - a" 0] False assms
  obtain r where "round64 (b - a) = Fin r" "0 \<le> r" "r \<le> 1" by auto
  then have "fp_abs (fp_sub (Fin b) (Fin a)) = Fin r \<and> 0 \<le> r \<and> r \<le> 1" by simp
  then show ?thesis using dist_symmetric [of a b] by auto
qed

lemma scale_distance_at_most_half:
  assumes "0 \<le> a" "a \<le> 1" "0 \<le> b" "b \<le> 1"
  shows "\<exists>r. scale_distance (Fin a) (Fin b) = Fin r \<and> 0 \<le> r \<and> r \<le> 1 / 2"
proof -
  from dist_in_unit [OF assms] obtain d
    where d: "fp_abs (fp_sub (Fin a) (Fin b)) = Fin d" "0 \<le> d" "d \<le> 1" by blast
  from round64_bounded [of "1 - d" 0] d
  obtain y where y: "round64 (1 - d) = Fin y" "0 \<le> y" "y \<le> 1" by auto
  have sd: "scale_distance (Fin a) (Fin b) = (if y < d then Fin y else Fin d)"
    using d(1) y(1) by (simp add: scale_distance_def Let_def py_min_def)
  show ?thesis
  proof (cases "d \<le> 1 / 2")
    case True
    then show ?thesis using sd d(2) y(2) by auto
  next
    case False
    from round64_bounded [of "1 - d" "- 1"] d False
    obtain y' where "round64 (1 - d) = Fin y'" "y' \<le> 1 / 2"
      by (auto simp: power_int_minus_divide)
    then have "y \<le> 1 / 2" using y(1) by simp
    then show ?thesis using sd False y(2) by auto
  qed
qed

lemmas round64_eval = round64_def binade_numeral round_half_even_def Let_def
  power_int_minus_divide scale_distance_def py_min_def

section \<open>Properties\<close>

text \<open>
  C9, as the code has it. \<^verbatim>\<open>scale_distance(a, b)\<close> is \<open>min(|a - b|, 1 - |a - b|)\<close> with
  each subtraction rounded to a double. It is symmetric, it is 0 for equal scales,
  \<^verbatim>\<open>scale_distance(0.0, 1.0)\<close> is 0.0, and for scales between 0 and 1 it is a number
  between 0 and 0.5. \<^verbatim>\<open>scale_distance(0.1, 0.9)\<close> is 0.19999999999999996, that is
  \<open>900719925474099 / 2 ^ 52\<close>, which is within \<open>2 ^ -54\<close> of 0.2.
\<close>

theorem scale_distance_properties:
  "scale_distance (Fin a) (Fin b)
     = py_min (fp_abs (round64 (a - b))) (fp_sub (Fin 1) (fp_abs (round64 (a - b))))
   \<and> scale_distance (Fin a) (Fin b) = scale_distance (Fin b) (Fin a)
   \<and> scale_distance (Fin a) (Fin a) = Fin 0
   \<and> scale_distance (Fin 0) (Fin 1) = Fin 0
   \<and> scale_distance (round64 (1 / 10)) (round64 (9 / 10)) = Fin (900719925474099 / 2 ^ 52)
   \<and> \<bar>900719925474099 / 2 ^ 52 - 2 / 10\<bar> \<le> (1 / 2 ^ 54 :: real)
   \<and> (0 \<le> a \<and> a \<le> 1 \<and> 0 \<le> b \<and> b \<le> 1 \<longrightarrow>
        (\<exists>r. scale_distance (Fin a) (Fin b) = Fin r \<and> 0 \<le> r \<and> r \<le> 1 / 2))"
proof (intro conjI impI)
  show "scale_distance (Fin a) (Fin b)
     = py_min (fp_abs (round64 (a - b))) (fp_sub (Fin 1) (fp_abs (round64 (a - b))))"
    by (simp add: scale_distance_def Let_def)
  show "scale_distance (Fin a) (Fin b) = scale_distance (Fin b) (Fin a)"
    by (simp only: scale_distance_def dist_symmetric [of a b])
  show "scale_distance (Fin a) (Fin a) = Fin 0"
    by (simp add: scale_distance_def Let_def py_min_def round64_0 round64_1)
  have "round64 (- 1) = Fin (- 1)"
    using round64_neg [of 1] by (simp add: round64_1)
  then show "scale_distance (Fin 0) (Fin 1) = Fin 0"
    by (simp add: scale_distance_def Let_def py_min_def round64_0)
  show "scale_distance (round64 (1 / 10)) (round64 (9 / 10)) = Fin (900719925474099 / 2 ^ 52)"
    by (simp add: round64_eval)
  show "\<bar>900719925474099 / 2 ^ 52 - 2 / 10\<bar> \<le> (1 / 2 ^ 54 :: real)"
    by simp
  show "\<exists>r. scale_distance (Fin a) (Fin b) = Fin r \<and> 0 \<le> r \<and> r \<le> 1 / 2"
    if "0 \<le> a \<and> a \<le> 1 \<and> 0 \<le> b \<and> b \<le> 1"
    using that scale_distance_at_most_half by blast
qed

theorem scale_distance_properties_witness:
  "scale_distance (Fin (1 / 4)) (Fin (3 / 4)) = Fin (1 / 2)
   \<and> (\<exists>r. scale_distance (Fin (1 / 4)) (Fin (3 / 4)) = Fin r \<and> 0 \<le> r \<and> r \<le> 1 / 2)"
  using scale_distance_properties [of "1 / 4" "3 / 4"]
  by (simp add: round64_eval)

text \<open>
  C9, as the specification states it, fails: \<^verbatim>\<open>scale_distance(0.1, 0.9)\<close> is not the
  double 0.2.
\<close>

theorem scale_distance_tenths:
  "scale_distance (round64 (1 / 10)) (round64 (9 / 10)) \<noteq> round64 (2 / 10)"
  by (simp add: round64_eval)

text \<open>
  C4. Constructing an Interaction with fewer than 2 participants fails with the
  constructor's error (the source raises \<^verbatim>\<open>ValueError\<close>; this is the error the
  specification calls InvalidInteraction), and nothing but the call is lost: no
  identifier is drawn and no clock is read, so the environment is as it was. With 2 or
  more participants the construction succeeds and yields an interaction holding the given
  participants, type and metadata.
\<close>

theorem Interaction_init_two_participants:
  "(length ps < 2 \<longrightarrow>
      Interaction_init ps ty md ev
        = Inl (ValueError ''Interaction requires at least two participants.''))
   \<and> (2 \<le> length ps \<longrightarrow>
      (\<exists>i ev'. Interaction_init ps ty md ev = Inr (i, ev')
         \<and> participants i = ps \<and> interaction_type i = ty
         \<and> metadata i = (case md of None \<Rightarrow> Map.empty | Some m \<Rightarrow> m)
         \<and> id_i i = uuid_src ev (uuid_pos ev)
         \<and> timestamp i = clock_src ev (clock_pos ev)))"
  by (simp add: Interaction_init_def uuid4_def time_time_def)

theorem Interaction_init_two_participants_witness:
  "Interaction_init [7] ''gravity'' None
      \<lparr>uuid_src = (\<lambda>n. n + 100), uuid_pos = 0, clock_src = (\<lambda>n. n), clock_pos = 0\<rparr>
     = Inl (ValueError ''Interaction requires at least two participants.'')
   \<and> (\<exists>i ev'. Interaction_init [7, 8] ''gravity'' None
      \<lparr>uuid_src = (\<lambda>n. n + 100), uuid_pos = 0, clock_src = (\<lambda>n. n), clock_pos = 0\<rparr>
        = Inr (i, ev') \<and> participants i = [7, 8] \<and> id_i i = 100)"
  using Interaction_init_two_participants
    [of "[7]" "''gravity''" None
        "\<lparr>uuid_src = (\<lambda>n. n + 100), uuid_pos = 0, clock_src = (\<lambda>n. n), clock_pos = 0\<rparr>"]
    Interaction_init_two_participants
    [of "[7, 8]" "''gravity''" None
        "\<lparr>uuid_src = (\<lambda>n. n + 100), uuid_pos = 0, clock_src = (\<lambda>n. n), clock_pos = 0\<rparr>"]
  by auto

text \<open>
  C1. One call of \<^verbatim>\<open>tick\<close> calls each registered rule once, in registration order, with
  the entity list and the store of the beginning of the tick: nothing is recorded, applied
  or perceived before all rules have run. It returns the concatenation of the rules'
  outputs (a null or empty output contributes nothing), appends exactly that sequence to
  the global history and, when it returns, has appended to each entity's history the
  returned interactions in which it takes part, once per occurrence among the
  participants and in order, and has advanced its local time by their number.
\<close>


theorem tick_rules_then_effects:
  "tick u h x =
     (case rule_outputs (interaction_rules u) (entities u) h x of
        Inl err \<Rightarrow> Inl err
      | Inr (outs, x') \<Rightarrow>
          (case process_interactions (concat (map contribution outs)) h of
             Inl err \<Rightarrow> Inl err
           | Inr h' \<Rightarrow>
               Inr (concat (map contribution outs),
                    u\<lparr>interaction_history_u :=
                        interaction_history_u u @ concat (map contribution outs)\<rparr>,
                    h', x')))
   \<and> (\<forall>new_interactions u' h' x'.
        tick u h x = Inr (new_interactions, u', h', x') \<longrightarrow>
          interaction_history_u u' = interaction_history_u u @ new_interactions
          \<and> entities u' = entities u
          \<and> (\<forall>r. interaction_history (h' r)
                     = interaction_history (h r) @ recorded_for r new_interactions
                 \<and> local_time (h' r)
                     = local_time (h r) + int (length (recorded_for r new_interactions))))"
proof (intro conjI allI impI)
  show "tick u h x =
     (case rule_outputs (interaction_rules u) (entities u) h x of
        Inl err \<Rightarrow> Inl err
      | Inr (outs, x') \<Rightarrow>
          (case process_interactions (concat (map contribution outs)) h of
             Inl err \<Rightarrow> Inl err
           | Inr h' \<Rightarrow>
               Inr (concat (map contribution outs),
                    u\<lparr>interaction_history_u :=
                        interaction_history_u u @ concat (map contribution outs)\<rparr>,
                    h', x')))"
    by (simp add: tick_def run_rules_outputs Let_def split: sum.splits)
next
  fix new_interactions u' h' x' r
  assume t: "tick u h x = Inr (new_interactions, u', h', x')"
  then have pi: "process_interactions new_interactions h = Inr h'"
    and u': "u' = u\<lparr>interaction_history_u := interaction_history_u u @ new_interactions\<rparr>"
    by (auto simp: tick_def Let_def split: sum.splits)
  show "interaction_history_u u' = interaction_history_u u @ new_interactions"
    using u' by simp
  show "entities u' = entities u"
    using u' by simp
  show "interaction_history (h' r) = interaction_history (h r) @ recorded_for r new_interactions"
    using process_interactions_history [OF pi] by blast
  show "local_time (h' r) = local_time (h r) + int (length (recorded_for r new_interactions))"
    using process_interactions_history [OF pi] by blast
qed

theorem tick_rules_then_effects_witness:
  "\<exists>u' h'. tick example_universe example_heap 7
       = Inr ([example_interaction 7 [0, 1] ''gravity'' [''mass_change'' \<mapsto> PInt 2],
               example_interaction 8 [1, 0] ''greeting'' Map.empty], u', h', 9)
     \<and> interaction_history_u u'
         = [example_interaction 7 [0, 1] ''gravity'' [''mass_change'' \<mapsto> PInt 2],
            example_interaction 8 [1, 0] ''greeting'' Map.empty]
     \<and> interaction_history (h' 1)
         = [example_interaction 7 [0, 1] ''gravity'' [''mass_change'' \<mapsto> PInt 2],
            example_interaction 8 [1, 0] ''greeting'' Map.empty]
     \<and> local_time (h' 0) = 2"
  using tick_rules_then_effects [of example_universe example_heap 7]
  by (simp add: ex_defs ex2_defs)

text \<open>
  C3. \<^verbatim>\<open>apply_effects\<close> by interaction type: gravity adds \<^verbatim>\<open>mass_change\<close> (default 1) to
  the mass (0 when absent), fusion adds \<^verbatim>\<open>energy_gain\<close> (default 10) to the energy,
  \<^verbatim>\<open>group_formed\<close> overwrites \<^verbatim>\<open>group_id\<close> with the group id of the metadata, and any
  other type leaves the store as it is. A tick whose rules yield one gravity interaction
  with \<^verbatim>\<open>mass_change = 2\<close> between two different entities raises the mass of both by
  exactly 2, and the local time and history length of both by exactly 1. Masses,
  energies and their changes are integers.
\<close>


theorem apply_effects_by_type:
  "(interaction_type i = ''gravity'' \<and> int_at (properties (h e)) ''mass'' 0 = Some m
      \<and> int_at (metadata i) ''mass_change'' 1 = Some c \<longrightarrow>
      apply_effects i e h
        = Inr (h(e := (h e)\<lparr>properties := (properties (h e))(''mass'' \<mapsto> PInt (m + c))\<rparr>)))
   \<and> (interaction_type i = ''fusion'' \<and> int_at (properties (h e)) ''energy'' 0 = Some en
      \<and> int_at (metadata i) ''energy_gain'' 10 = Some g \<longrightarrow>
      apply_effects i e h
        = Inr (h(e := (h e)\<lparr>properties := (properties (h e))(''energy'' \<mapsto> PInt (en + g))\<rparr>)))
   \<and> (interaction_type i = ''group_formed'' \<longrightarrow>
      apply_effects i e h
        = Inr (h(e := (h e)\<lparr>properties :=
                 (properties (h e))(''group_id'' \<mapsto> dict_get (metadata i) ''group_id'' PNone)\<rparr>)))
   \<and> (interaction_type i \<noteq> ''gravity'' \<and> interaction_type i \<noteq> ''fusion''
      \<and> interaction_type i \<noteq> ''group_formed'' \<longrightarrow> apply_effects i e h = Inr h)
   \<and> (run_rules (interaction_rules u) (entities u) h [] x = Inr ([i], x')
      \<and> participants i = [a, b] \<and> a \<noteq> b \<and> interaction_type i = ''gravity''
      \<and> metadata i ''mass_change'' = Some (PInt 2)
      \<and> int_at (properties (h a)) ''mass'' 0 = Some ma
      \<and> int_at (properties (h b)) ''mass'' 0 = Some mb \<longrightarrow>
      (\<exists>u' h'. tick u h x = Inr ([i], u', h', x')
          \<and> properties (h' a) ''mass'' = Some (PInt (ma + 2))
          \<and> properties (h' b) ''mass'' = Some (PInt (mb + 2))
          \<and> local_time (h' a) = local_time (h a) + 1
          \<and> local_time (h' b) = local_time (h b) + 1
          \<and> length (interaction_history (h' a)) = length (interaction_history (h a)) + 1
          \<and> length (interaction_history (h' b)) = length (interaction_history (h b)) + 1))"
proof (intro conjI impI)
  show "apply_effects i e h
        = Inr (h(e := (h e)\<lparr>properties := (properties (h e))(''mass'' \<mapsto> PInt (m + c))\<rparr>))"
    if "interaction_type i = ''gravity'' \<and> int_at (properties (h e)) ''mass'' 0 = Some m
      \<and> int_at (metadata i) ''mass_change'' 1 = Some c"
    using that by (simp add: apply_effects_gravity)
  show "apply_effects i e h
        = Inr (h(e := (h e)\<lparr>properties := (properties (h e))(''energy'' \<mapsto> PInt (en + g))\<rparr>))"
    if "interaction_type i = ''fusion'' \<and> int_at (properties (h e)) ''energy'' 0 = Some en
      \<and> int_at (metadata i) ''energy_gain'' 10 = Some g"
    using that by (simp add: apply_effects_fusion)
  show "apply_effects i e h
        = Inr (h(e := (h e)\<lparr>properties :=
                 (properties (h e))(''group_id'' \<mapsto> dict_get (metadata i) ''group_id'' PNone)\<rparr>))"
    if "interaction_type i = ''group_formed''"
    using that by (rule apply_effects_group_formed)
  show "apply_effects i e h = Inr h"
    if "interaction_type i \<noteq> ''gravity'' \<and> interaction_type i \<noteq> ''fusion''
      \<and> interaction_type i \<noteq> ''group_formed''"
    using that by (simp add: apply_effects_other)
  show "\<exists>u' h'. tick u h x = Inr ([i], u', h', x')
          \<and> properties (h' a) ''mass'' = Some (PInt (ma + 2))
          \<and> properties (h' b) ''mass'' = Some (PInt (mb + 2))
          \<and> local_time (h' a) = local_time (h a) + 1
          \<and> local_time (h' b) = local_time (h b) + 1
          \<and> length (interaction_history (h' a)) = length (interaction_history (h a)) + 1
          \<and> length (interaction_history (h' b)) = length (interaction_history (h b)) + 1"
    if "run_rules (interaction_rules u) (entities u) h [] x = Inr ([i], x')
      \<and> participants i = [a, b] \<and> a \<noteq> b \<and> interaction_type i = ''gravity''
      \<and> metadata i ''mass_change'' = Some (PInt 2)
      \<and> int_at (properties (h a)) ''mass'' 0 = Some ma
      \<and> int_at (properties (h b)) ''mass'' 0 = Some mb"
    using that tick_single_gravity [of u h x i x' a b ma mb] by blast
qed

theorem apply_effects_by_type_witness:
  "apply_effects (example_interaction 7 [0, 1] ''gravity'' [''mass_change'' \<mapsto> PInt 2]) 1
       example_heap2
     = Inr (example_heap2(1 := (example_heap2 1)\<lparr>properties := [''mass'' \<mapsto> PInt 5]\<rparr>))
   \<and> (\<exists>u' h'. tick example_universe1 example_heap2 7
         = Inr ([example_interaction 7 [0, 1] ''gravity'' [''mass_change'' \<mapsto> PInt 2]], u', h', 8)
       \<and> properties (h' 0) ''mass'' = Some (PInt 2)
       \<and> properties (h' 1) ''mass'' = Some (PInt 5)
       \<and> local_time (h' 1) = 5)"
  using apply_effects_by_type
    [where i = "example_interaction 7 [0, 1] ''gravity'' [''mass_change'' \<mapsto> PInt 2]"
       and h = example_heap2 and e = 1 and m = 3 and c = 2
       and u = example_universe1 and x = 7 and x' = 8 and a = 0 and b = 1 and ma = 0 and mb = 3]
  by (simp add: example_universe1_def example_rule_def example_interaction_def
        example_heap2_def example_heap_def example_entity_def int_at_def) blast

text \<open>
  C5. \<^verbatim>\<open>perceive_signal\<close> leaves the reality model as it is unless the observer is among
  the participants. Hence, whatever sequence of interactions an observer perceives, every
  node of its model was there before or is the id of a participant of an interaction the
  observer took part in, and every edge was there before or is keyed by the id of such
  an interaction.
\<close>


theorem perceive_signal_only_own_interactions:
  "(self \<notin> set (participants i) \<longrightarrow> perceive_signal h self i g = g)
   \<and> (\<forall>n. has_node (perceive_each self evs g) n \<longrightarrow>
          has_node g n \<or> (\<exists>(h', i') \<in> set evs. self \<in> set (participants i')
                             \<and> n \<in> (\<lambda>p. id_e (h' p)) ` set (participants i')))
   \<and> (\<forall>k. k \<in> fst ` set (edges (perceive_each self evs g)) \<longrightarrow>
          k \<in> fst ` set (edges g) \<or> (\<exists>(h', i') \<in> set evs. self \<in> set (participants i')
                                        \<and> snd (snd k) = id_i i'))"
  using perceive_signal_skip has_node_perceive_each edge_keys_perceive_each by blast

theorem perceive_signal_only_own_interactions_witness:
  "perceive_signal example_heap 0 (example_interaction 50 [1, 2] ''t'' Map.empty) empty_graph
     = empty_graph
   \<and> \<not> has_node (perceive_each 0
          [(example_heap, example_interaction 50 [1, 2] ''t'' Map.empty),
           (example_heap, example_interaction 51 [0, 1] ''t'' Map.empty)] empty_graph) 102
   \<and> has_node (perceive_each 0
          [(example_heap, example_interaction 50 [1, 2] ''t'' Map.empty),
           (example_heap, example_interaction 51 [0, 1] ''t'' Map.empty)] empty_graph) 101"
  using perceive_signal_only_own_interactions
    [where self = 0 and i = "example_interaction 50 [1, 2] ''t'' Map.empty"
       and h = example_heap and g = empty_graph
       and evs = "[(example_heap, example_interaction 50 [1, 2] ''t'' Map.empty),
                   (example_heap, example_interaction 51 [0, 1] ''t'' Map.empty)]"]
  by (simp add: ex_defs)

text \<open>
  C6. An observer perceiving an interaction with exactly 2 participants, of which it is
  one, has afterwards one edge in each direction between the two participants' ids, keyed
  by the interaction's id and carrying its type, timestamp and metadata; every other edge
  is as before, and the number of edges has grown by 2 when the two ids differ and
  neither edge existed. With more than 2 participants the edges are as before and every
  participant's id is a node. In both cases the nodes are upserted: the model's nodes are
  the old ones and the participants' ids, a node of no participant is as before, and (ids
  being unique among the participants) each participant's node holds a copy of its
  properties, scale and local time when it is new, and its old attributes with the
  properties and local time replaced when it existed.
\<close>


theorem perceive_signal_edges:
  assumes "self \<in> set (participants i)"
  shows "(\<forall>a b. participants i = [a, b] \<longrightarrow>
            (let d = \<lparr>e_type = interaction_type i, e_timestamp = timestamp i,
                      e_metadata = metadata i\<rparr>;
                 g' = perceive_signal h self i g
             in map_of (edges g') (id_e (h a), id_e (h b), id_i i) = Some d
                \<and> map_of (edges g') (id_e (h b), id_e (h a), id_i i) = Some d
                \<and> (\<forall>k. k \<noteq> (id_e (h a), id_e (h b), id_i i) \<and> k \<noteq> (id_e (h b), id_e (h a), id_i i)
                       \<longrightarrow> map_of (edges g') k = map_of (edges g) k)
                \<and> (id_e (h a) \<noteq> id_e (h b)
                     \<and> (id_e (h a), id_e (h b), id_i i) \<notin> fst ` set (edges g)
                     \<and> (id_e (h b), id_e (h a), id_i i) \<notin> fst ` set (edges g)
                     \<longrightarrow> number_of_edges g' = number_of_edges g + 2)))
         \<and> (length (participants i) > 2 \<longrightarrow>
              edges (perceive_signal h self i g) = edges g
              \<and> (\<forall>p \<in> set (participants i). has_node (perceive_signal h self i g) (id_e (h p))))
         \<and> (\<forall>n. has_node (perceive_signal h self i g) n \<longleftrightarrow>
                  has_node g n \<or> n \<in> (\<lambda>p. id_e (h p)) ` set (participants i))
         \<and> (\<forall>n. n \<notin> (\<lambda>p. id_e (h p)) ` set (participants i) \<longrightarrow>
                  map_of (nodes (perceive_signal h self i g)) n = map_of (nodes g) n)
         \<and> (inj_on (\<lambda>p. id_e (h p)) (set (participants i)) \<longrightarrow>
              (\<forall>p \<in> set (participants i).
                 map_of (nodes (perceive_signal h self i g)) (id_e (h p))
                   = Some (case map_of (nodes g) (id_e (h p)) of
                             None \<Rightarrow> \<lparr>n_properties = Some (properties (h p)),
                                       n_scale = Some (scale (h p)),
                                       n_local_time = Some (local_time (h p))\<rparr>
                           | Some a \<Rightarrow> a\<lparr>n_properties := Some (properties (h p)),
                                         n_local_time := Some (local_time (h p))\<rparr>)))"
proof (intro conjI allI impI ballI)
  assume long: "2 < length (participants i)"
  then show "edges (perceive_signal h self i g) = edges g"
    by (simp add: edges_perceive_signal_other)
  fix p assume "p \<in> set (participants i)"
  with assms show "has_node (perceive_signal h self i g) (id_e (h p))"
    by (simp add: has_node_perceive_signal)
next
  fix n
  show "has_node (perceive_signal h self i g) n \<longleftrightarrow>
          has_node g n \<or> n \<in> (\<lambda>p. id_e (h p)) ` set (participants i)"
    using assms by (simp add: has_node_perceive_signal)
next
  fix n
  assume "n \<notin> (\<lambda>p. id_e (h p)) ` set (participants i)"
  then show "map_of (nodes (perceive_signal h self i g)) n = map_of (nodes g) n"
    using perceive_signal_nodes_upserted(1) [OF assms] by blast
next
  fix p
  assume "inj_on (\<lambda>p. id_e (h p)) (set (participants i))" "p \<in> set (participants i)"
  from perceive_signal_nodes_upserted(2) [OF assms this]
  show "map_of (nodes (perceive_signal h self i g)) (id_e (h p))
          = Some (case map_of (nodes g) (id_e (h p)) of
                    None \<Rightarrow> \<lparr>n_properties = Some (properties (h p)),
                              n_scale = Some (scale (h p)),
                              n_local_time = Some (local_time (h p))\<rparr>
                  | Some a \<Rightarrow> a\<lparr>n_properties := Some (properties (h p)),
                                n_local_time := Some (local_time (h p))\<rparr>)"
    by (simp add: upserted_def first_seen_def refreshed_def split: option.splits)
next
  fix a b
  assume ab: "participants i = [a, b]"
  let ?d = "\<lparr>e_type = interaction_type i, e_timestamp = timestamp i, e_metadata = metadata i\<rparr>"
  let ?k1 = "(id_e (h a), id_e (h b), id_i i)"
  let ?k2 = "(id_e (h b), id_e (h a), id_i i)"
  have es: "edges (perceive_signal h self i g) = AList.update ?k2 ?d (AList.update ?k1 ?d (edges g))"
    using edges_perceive_signal_binary [OF ab assms] .
  have m1: "map_of (edges (perceive_signal h self i g)) ?k1 = Some ?d"
    unfolding es by (simp add: update_conv')
  have m2: "map_of (edges (perceive_signal h self i g)) ?k2 = Some ?d"
    unfolding es by (simp add: update_conv')
  have m3: "\<forall>k. k \<noteq> ?k1 \<and> k \<noteq> ?k2 \<longrightarrow>
              map_of (edges (perceive_signal h self i g)) k = map_of (edges g) k"
    unfolding es by (simp add: update_conv')
  have m4: "id_e (h a) \<noteq> id_e (h b) \<and> ?k1 \<notin> fst ` set (edges g) \<and> ?k2 \<notin> fst ` set (edges g)
              \<longrightarrow> number_of_edges (perceive_signal h self i g) = number_of_edges g + 2"
    unfolding es number_of_edges_def
    by (auto simp: length_update_new dom_update)
  from m1 m2 m3 m4
  show "let d = ?d; g' = perceive_signal h self i g
        in map_of (edges g') ?k1 = Some d \<and> map_of (edges g') ?k2 = Some d
           \<and> (\<forall>k. k \<noteq> ?k1 \<and> k \<noteq> ?k2 \<longrightarrow> map_of (edges g') k = map_of (edges g) k)
           \<and> (id_e (h a) \<noteq> id_e (h b) \<and> ?k1 \<notin> fst ` set (edges g) \<and> ?k2 \<notin> fst ` set (edges g)
                \<longrightarrow> number_of_edges g' = number_of_edges g + 2)"
    unfolding Let_def by blast
qed

theorem perceive_signal_edges_witness:
  "number_of_edges (perceive_signal example_heap 0
      (example_interaction 50 [0, 1] ''t'' Map.empty) empty_graph) = 2
   \<and> map_of (edges (perceive_signal example_heap 0
      (example_interaction 50 [0, 1] ''t'' Map.empty) empty_graph)) (101, 100, 50)
       = Some \<lparr>e_type = ''t'', e_timestamp = 0, e_metadata = Map.empty\<rparr>
   \<and> edges (perceive_signal example_heap 0
      (example_interaction 50 [0, 1, 2] ''t'' Map.empty) empty_graph) = []
   \<and> has_node (perceive_signal example_heap 0
      (example_interaction 50 [0, 1, 2] ''t'' Map.empty) empty_graph) 102
   \<and> map_of (nodes (perceive_signal example_heap2 0
        (example_interaction 51 [0, 1, 2] ''t'' Map.empty)
        (perceive_signal example_heap 0
           (example_interaction 50 [0, 1] ''t'' Map.empty) empty_graph))) 101
       = Some \<lparr>n_properties = Some [''mass'' \<mapsto> PInt 3], n_scale = Some (1 / 2),
                n_local_time = Some 4\<rparr>
   \<and> map_of (nodes (perceive_signal example_heap2 0
        (example_interaction 51 [0, 1, 2] ''t'' Map.empty)
        (perceive_signal example_heap 0
           (example_interaction 50 [0, 1] ''t'' Map.empty) empty_graph))) 102
       = Some \<lparr>n_properties = Some Map.empty, n_scale = Some (1 / 2),
                n_local_time = Some 0\<rparr>"
  using perceive_signal_edges
    [where self = 0 and i = "example_interaction 50 [0, 1] ''t'' Map.empty"
       and h = example_heap and g = empty_graph]
    perceive_signal_edges
    [where self = 0 and i = "example_interaction 50 [0, 1, 2] ''t'' Map.empty"
       and h = example_heap and g = empty_graph]
    perceive_signal_edges
    [where self = 0 and i = "example_interaction 51 [0, 1, 2] ''t'' Map.empty"
       and h = example_heap2
       and g = "perceive_signal example_heap 0
           (example_interaction 50 [0, 1] ''t'' Map.empty) empty_graph"]
  by (simp add: ex_defs example_heap2_def)

text \<open>
  C7, as the code has it. An observer that starts with an empty model and perceives 6
  binary interactions with distinct ids, each between itself and one of 4 distinct other
  entities, reports 5 perceived entities (the 4 others and itself) and 12 perceived
  relationships; its \<^verbatim>\<open>perceived_groups\<close> lists a group id with a count exactly when the
  count is the number of perceived members of that group and is more than one.
\<close>


theorem find_patterns_six_meetings:
  assumes "\<forall>i \<in> set is. meets h self i"
    and "distinct (map id_i is)"
    and "length is = 6"
    and "card (other_ids h self is) = 4"
  shows "num_perceived_entities (find_patterns (perceive_each self (map (Pair h) is) empty_graph))
           = 5
       \<and> num_perceived_relationships
           (find_patterns (perceive_each self (map (Pair h) is) empty_graph)) = 12
       \<and> (\<forall>gid c. (gid, c) \<in> set (perceived_groups
               (find_patterns (perceive_each self (map (Pair h) is) empty_graph)))
             \<longleftrightarrow> c > 1
                 \<and> c = perceived_members (perceive_each self (map (Pair h) is) empty_graph) gid)"
proof -
  let ?G = "perceive_each self (map (Pair h) is) empty_graph"
  have ne: "is \<noteq> []" using assms(3) by auto
  have dk: "distinct (map fst (nodes ?G))"
    by (rule distinct_keys_perceive_each) (simp add: empty_graph_def)
  show ?thesis
    using find_patterns_meetings_general [OF assms(1,2) ne] assms(3,4)
      perceived_groups_members [OF dk]
    by simp
qed

theorem find_patterns_six_meetings_witness:
  "num_perceived_entities (find_patterns
      (perceive_each 0 (map (Pair example_heap_groups) (example_meetings [1, 1, 2, 3, 4, 2]))
         empty_graph)) = 5
   \<and> num_perceived_relationships (find_patterns
      (perceive_each 0 (map (Pair example_heap_groups) (example_meetings [1, 1, 2, 3, 4, 2]))
         empty_graph)) = 12
   \<and> perceived_groups (find_patterns
      (perceive_each 0 (map (Pair example_heap_groups) (example_meetings [1, 1, 2, 3, 4, 2]))
         empty_graph)) = [(PStr ''group1'', 2), (PStr ''group2'', 2)]"
proof -
  let ?is = "example_meetings [1, 1, 2, 3, 4, 2]"
  have h1: "\<forall>i \<in> set ?is. meets example_heap_groups 0 i"
    by (simp add: ex3_defs ex_defs)
  have h2: "distinct (map id_i ?is)"
    by (simp add: ex3_defs ex_defs)
  have h3: "length ?is = 6"
    by (simp add: ex3_defs)
  have h4: "card (other_ids example_heap_groups 0 ?is) = 4"
    by (simp add: ex3_defs ex_defs card_insert_if)
  have g: "perceived_groups (find_patterns
      (perceive_each 0 (map (Pair example_heap_groups) ?is) empty_graph))
       = [(PStr ''group1'', 2), (PStr ''group2'', 2)]"
    by (simp add: ex3_defs ex_defs)
  from find_patterns_six_meetings [OF h1 h2 h3 h4] g show ?thesis by simp
qed

text \<open>
  C7, as the specification states it, fails: with 5 distinct other entities the
  observer reports 6 perceived entities, not 5, since it is a node of its own model.
\<close>


theorem find_patterns_five_others:
  "num_perceived_entities (find_patterns
      (perceive_each 0 (map (Pair example_heap_groups) (example_meetings [1, 1, 2, 3, 4, 5]))
         empty_graph)) = 6
   \<and> num_perceived_entities (find_patterns
      (perceive_each 0 (map (Pair example_heap_groups) (example_meetings [1, 1, 2, 3, 4, 5]))
         empty_graph)) \<noteq> 5"
  by (simp add: ex3_defs ex_defs)

text \<open>
  C2. The rule counts history entries, not interactions: an interaction that the engine
  has recorded for both participants is counted twice. After one single interaction
  between entities 1 and 2 the count of the pair is 2, and the rule with threshold 2
  emits a \<^verbatim>\<open>group_formed\<close> interaction for the pair, whichever way the library lists the
  pair of ids.
\<close>


theorem group_formation_after_one_interaction:
  assumes "fl {101, 102} = [101, 102] \<or> fl {101, 102} = [102, 101]"
  shows "\<exists>H. process_interactions [example_bond] example_heap = Inr H
           \<and> interaction_history (H 1) = [example_bond]
           \<and> interaction_history (H 2) = [example_bond]
           \<and> (\<exists>i ev'. group_formation_rule fl us 2 [1, 2] H ev = Inr (Some [i], ev')
                 \<and> interaction_type i = ''group_formed''
                 \<and> set (participants i) = {1, 2})"
proof -
  from bond_recorded obtain H where H: "process_interactions [example_bond] example_heap = Inr H"
    "interaction_history (H 1) = [example_bond]" "interaction_history (H 2) = [example_bond]"
    "properties (H 1) = Map.empty" "properties (H 2) = Map.empty"
    "id_e (H 1) = 101" "id_e (H 2) = 102"
    by blast
  have c: "interaction_counts_of H [1, 2] = [({101, 102}, 2)]"
    using H(2,3,6,7) by (rule counts_once)
  from group_for_bond [where fl = fl and H = H and us = us and ev = ev, OF assms H(4-7)]
  obtain i ev' where g: "group_for_pair fl us 2 [1, 2] H ({101, 102}, 2) ev = Inr (Some i, ev')"
    "interaction_type i = ''group_formed''" "set (participants i) = {1, 2}"
    by blast
  have "group_formation_rule fl us 2 [1, 2] H ev = Inr (Some [i], ev')"
    using c g(1) by (simp add: group_formation_rule_def)
  with H(1,2,3) g(2,3) show ?thesis
    by blast
qed

theorem group_formation_after_one_interaction_witness:
  "\<exists>H. process_interactions [example_bond] example_heap = Inr H
      \<and> interaction_history (H 1) = [example_bond]
      \<and> interaction_history (H 2) = [example_bond]
      \<and> (\<exists>i ev'. group_formation_rule sorted_list_of_set (\<lambda>u. ''g'') 2 [1, 2] H
               \<lparr>uuid_src = (\<lambda>n. 1000 + n), uuid_pos = 0, clock_src = (\<lambda>n. n), clock_pos = 0\<rparr>
             = Inr (Some [i], ev')
           \<and> interaction_type i = ''group_formed''
           \<and> set (participants i) = {1, 2})"
proof -
  have "sorted_list_of_set {101, 102 :: nat} = [101, 102]
          \<or> sorted_list_of_set {101, 102 :: nat} = [102, 101]"
    by simp
  from group_formation_after_one_interaction
         [where fl = sorted_list_of_set and us = "\<lambda>u. ''g''"
            and ev = "\<lparr>uuid_src = (\<lambda>n. 1000 + n), uuid_pos = 0, clock_src = (\<lambda>n. n),
                      clock_pos = 0\<rparr>", OF this]
  show ?thesis .
qed

text \<open>
  C8. Perceiving the same interaction a second time, in a later store in which the
  participants have the ids they had (ids are unique among them), leaves the edges exactly
  as after the first perception and adds no node; each participant's node then holds the
  participant's current properties and local time, and keeps the scale it stored before.
\<close>


theorem perceive_signal_again:
  assumes self: "self \<in> set (participants i)"
    and ids: "\<forall>p \<in> set (participants i). id_e (h2 p) = id_e (h p)"
    and inj: "inj_on (\<lambda>p. id_e (h2 p)) (set (participants i))"
  shows "edges (perceive_signal h2 self i (perceive_signal h self i g))
           = edges (perceive_signal h self i g)
       \<and> map fst (nodes (perceive_signal h2 self i (perceive_signal h self i g)))
           = map fst (nodes (perceive_signal h self i g))
       \<and> (\<forall>p \<in> set (participants i). \<exists>a.
            map_of (nodes (perceive_signal h self i g)) (id_e (h p)) = Some a
            \<and> map_of (nodes (perceive_signal h2 self i (perceive_signal h self i g))) (id_e (h p))
                = Some (a\<lparr>n_properties := Some (properties (h2 p)),
                         n_local_time := Some (local_time (h2 p))\<rparr>))"
proof (intro conjI ballI)
  let ?g1 = "perceive_signal h self i g"
  let ?g2 = "perceive_signal h2 self i ?g1"
  show "edges ?g2 = edges ?g1"
    using self ids by (rule edges_perceive_signal_again)
  have present: "\<forall>p \<in> set (participants i). has_node ?g1 (id_e (h2 p))"
    using self ids by (simp add: has_node_perceive_signal)
  have n2: "nodes ?g2 = nodes (foldl (upsert_node h2) ?g1 (participants i))"
    using self by (rule nodes_perceive_signal)
  show "map fst (nodes ?g2) = map fst (nodes ?g1)"
    unfolding n2 using present by (rule keys_upsert_fold_present)
  fix p
  assume p: "p \<in> set (participants i)"
  have "has_node ?g1 (id_e (h p))"
    using self p by (auto simp: has_node_perceive_signal)
  then obtain a where a: "map_of (nodes ?g1) (id_e (h p)) = Some a"
    unfolding has_node_def by (metis map_of_eq_None_iff not_None_eq)
  have "map_of (nodes ?g2) (id_e (h2 p)) = map_option (refreshed h2 p) (map_of (nodes ?g1) (id_e (h2 p)))"
    unfolding n2 using present inj p by (rule map_of_upsert_fold_present)
  then have "map_of (nodes ?g2) (id_e (h p))
               = Some (a\<lparr>n_properties := Some (properties (h2 p)),
                        n_local_time := Some (local_time (h2 p))\<rparr>)"
    using a ids p by (simp add: refreshed_def)
  with a show "\<exists>a. map_of (nodes ?g1) (id_e (h p)) = Some a
            \<and> map_of (nodes ?g2) (id_e (h p))
                = Some (a\<lparr>n_properties := Some (properties (h2 p)),
                         n_local_time := Some (local_time (h2 p))\<rparr>)"
    by blast
qed

theorem perceive_signal_again_witness:
  "length (edges (perceive_signal example_heap2 0 (example_interaction 50 [0, 1] ''t'' Map.empty)
      (perceive_signal example_heap 0 (example_interaction 50 [0, 1] ''t'' Map.empty) empty_graph)))
     = 2
   \<and> map_of (nodes (perceive_signal example_heap2 0 (example_interaction 50 [0, 1] ''t'' Map.empty)
      (perceive_signal example_heap 0 (example_interaction 50 [0, 1] ''t'' Map.empty) empty_graph)))
        101
     = Some \<lparr>n_properties = Some [''mass'' \<mapsto> PInt 3], n_scale = Some (1 / 2),
              n_local_time = Some 4\<rparr>"
  using perceive_signal_again
    [where self = 0 and i = "example_interaction 50 [0, 1] ''t'' Map.empty"
       and h = example_heap and ?h2.0 = example_heap2 and g = empty_graph]
  by (simp add: ex_defs example_heap2_def)

text \<open>
  C10. A tick that returns leaves every entity that takes part in none of the returned
  interactions entirely as it was: properties, history, local time, scale and, for an
  observer, the reality model.
\<close>


theorem tick_frame:
  assumes "tick u h x = Inr (new_interactions, u', h', x')"
    and "r \<notin> (\<Union>i \<in> set new_interactions. set (participants i))"
  shows "h' r = h r"
proof -
  from assms(1) have "process_interactions new_interactions h = Inr h'"
    by (auto simp: tick_def Let_def split: sum.splits)
  then show ?thesis using assms(2) by (rule process_interactions_frame)
qed

theorem tick_frame_witness:
  "\<exists>new u' h' x'. tick example_universe example_heap 7 = Inr (new, u', h', x')
      \<and> 2 \<notin> (\<Union>i \<in> set new. set (participants i))
      \<and> h' 2 = example_heap 2"
proof -
  obtain new u' h' x' where t: "tick example_universe example_heap 7 = Inr (new, u', h', x')"
    and n: "new = [example_interaction 7 [0, 1] ''gravity'' [''mass_change'' \<mapsto> PInt 2],
               example_interaction 8 [1, 0] ''greeting'' Map.empty]"
    by (simp add: ex_defs ex2_defs)
  have "2 \<notin> (\<Union>i \<in> set new. set (participants i))"
    by (simp add: n example_interaction_def)
  with t tick_frame [OF t this] show ?thesis by blast
qed

end
